theory Spec2Isabelle
  imports Main
begin

text \<open>
  The booking lifecycle of the Global IT Zone backend: the coupon code generator and
  the \<open>updateStatus\<close> method of the booking model, the booking handlers (create,
  read, cancel, complete, read by coupon code) and the two product handlers they
  depend on (single-product fetch, soft delete). Handlers are functions from the
  request, the environment and the store to the response and the next store.
\<close>

section \<open>Strings and the coupon code generator (models/Booking.js)\<close>

text \<open>
  JavaScript strings are modelled as \<open>string\<close> (lists of 8-bit characters); the
  strings this part of the program builds are ASCII. \<open>toUpperCase\<close> and
  \<open>toLowerCase\<close> change the 26 ASCII letters and leave every other character as
  it is: they are JavaScript's conversions on ASCII strings. A coupon code supplied
  in a request may hold any character; it is converted by \<open>toUpperCaseU\<close> below.
\<close>

definition lowerLetters :: string where
  "lowerLetters = ''abcdefghijklmnopqrstuvwxyz''"

definition upperLetters :: string where
  "upperLetters = ''ABCDEFGHIJKLMNOPQRSTUVWXYZ''"

definition upperChar :: "char \<Rightarrow> char" where
  "upperChar c = (case map_of (zip lowerLetters upperLetters) c of None \<Rightarrow> c | Some u \<Rightarrow> u)"

definition lowerChar :: "char \<Rightarrow> char" where
  "lowerChar c = (case map_of (zip upperLetters lowerLetters) c of None \<Rightarrow> c | Some l \<Rightarrow> l)"

definition toUpperCase :: "string \<Rightarrow> string" where
  "toUpperCase s = map upperChar s"

definition toLowerCase :: "string \<Rightarrow> string" where
  "toLowerCase s = map lowerChar s"

text \<open>The character class \<open>[A-Z0-9]\<close>.\<close>

definition isUpperAlnum :: "char \<Rightarrow> bool" where
  "isUpperAlnum c = (c \<in> set (upperLetters @ ''0123456789''))"

text \<open>
  \<open>Number.prototype.toString(36)\<close> on a non-negative integer: positional digits
  \<open>0-9a-z\<close>, most significant first, \<open>"0"\<close> for zero.
\<close>

definition digits36 :: string where
  "digits36 = ''0123456789abcdefghijklmnopqrstuvwxyz''"

text \<open>The digit character of a digit value; it is applied to values below 36 only.\<close>

definition digit36 :: "nat \<Rightarrow> char" where
  "digit36 d = digits36 ! d"

function toString36 :: "nat \<Rightarrow> string" where
  "toString36 n =
     (if n < 36 then [digit36 n] else toString36 (n div 36) @ [digit36 (n mod 36)])"
  by pat_completeness auto
termination
  by (relation "measure id") auto

declare toString36.simps [simp del]

text \<open>
  \<open>Math.random()\<close> returns a double in \<open>[0, 1)\<close>. Its \<open>toString(36)\<close> is
  \<open>"0"\<close> when the number is zero and \<open>"0."\<close> followed by the base-36 digits of
  the fraction otherwise. The random number is represented by that list of fractional
  digits (each below 36): \<open>[]\<close> is 0, \<open>[18]\<close> is 0.5 (printed \<open>"0.i"\<close>),
  \<open>[9]\<close> is 0.25 (printed \<open>"0.9"\<close>).
\<close>

definition randomToString36 :: "nat list \<Rightarrow> string" where
  "randomToString36 ds = (if ds = [] then ''0'' else ''0.'' @ map digit36 ds)"

text \<open>\<open>s.substring(a, b)\<close> for \<open>0 \<le> a \<le> b\<close>: indices are clamped to the length.\<close>

definition substring :: "string \<Rightarrow> nat \<Rightarrow> nat \<Rightarrow> string" where
  "substring s a b = take (b - a) (drop a s)"

text \<open>
  \<^verbatim>\<open>
  function generateCouponCode() {
    const prefix = 'GIT';
    const timestamp = Date.now().toString(36).toUpperCase();
    const random = Math.random().toString(36).substring(2, 6).toUpperCase();
    return `${prefix}-${timestamp}-${random}`;
  }
  \<close>
  The clock reading \<open>Date.now()\<close> (milliseconds, a natural number) and the random
  number are the two inputs.
\<close>

definition generateCouponCode :: "nat \<Rightarrow> nat list \<Rightarrow> string" where
  "generateCouponCode now rnd =
     (let prefix = ''GIT'';
          timestamp = toUpperCase (toString36 now);
          random = toUpperCase (substring (randomToString36 rnd) 2 6)
      in prefix @ ''-'' @ timestamp @ ''-'' @ random)"

text \<open>
  The specification's pattern, anchored: \<open>GIT-[A-Z0-9]+-[A-Z0-9]{k}\<close>, and the
  same pattern with a suffix of at most \<open>k\<close> characters. The class \<open>[A-Z0-9]\<close> does not contain
  \<open>-\<close>, so the greedy split at the first character outside the class decides the
  match.
\<close>

definition couponParts :: "string \<Rightarrow> (string \<times> string) option" where
  "couponParts s =
     (if take 4 s = ''GIT-'' then
        (let rest = drop 4 s;
             ts = takeWhile isUpperAlnum rest;
             more = dropWhile isUpperAlnum rest
         in case more of
              [] \<Rightarrow> None
            | c # rs \<Rightarrow> if c = CHR ''-'' \<and> ts \<noteq> [] \<and> list_all isUpperAlnum rs
                       then Some (ts, rs) else None)
      else None)"

definition matchesCouponPattern :: "nat \<Rightarrow> string \<Rightarrow> bool" where
  "matchesCouponPattern k s =
     (case couponParts s of None \<Rightarrow> False | Some (ts, rs) \<Rightarrow> length rs = k)"

definition matchesCouponPatternUpTo :: "nat \<Rightarrow> string \<Rightarrow> bool" where
  "matchesCouponPatternUpTo k s =
     (case couponParts s of None \<Rightarrow> False | Some (ts, rs) \<Rightarrow> length rs \<le> k)"


section \<open>Data model (models/Product.js, models/Booking.js)\<close>

text \<open>
  Object ids are compared as strings, as the handlers do (\<open>toString()\<close>). Dates are
  clock readings in milliseconds. JavaScript numbers in the booking's pricing and
  quantity fields are modelled as integers.
\<close>

type_synonym objectId = string
type_synonym date = nat

datatype availability = Available | OutOfStock | Discontinued

datatype booking_status = Confirmed | Cancelled | Completed

text \<open>
  The product schema. The descriptive fields that no modelled handler reads
  (\<open>condition\<close>, \<open>type\<close>, \<open>price\<close>, \<open>originalPrice\<close>, \<open>discount\<close>,
  \<open>specifications\<close>, \<open>tags\<close>) are left out.
\<close>

record product =
  name :: string
  description :: string
  category :: string
  availability :: availability
  features :: "string list"
  images :: "string list"
  imagePublicIds :: "string list"
  stock :: int
  isActive :: bool
  views :: int
  likes :: int
  createdBy :: objectId

text \<open>
  The booking schema, with \<open>_id\<close> as \<open>bookingId\<close>, \<open>notes\<close> as
  \<open>bookingNotes\<close>, and the two timestamps of \<open>timestamps: true\<close>.
\<close>

record booking =
  bookingId :: objectId
  productId :: objectId
  productName :: string
  productImage :: string
  productCategory :: string
  userId :: objectId
  customerName :: string
  customerPhone :: string
  customerAddress :: string
  quantity :: int
  bookingDate :: date
  orderDate :: date
  actualPrice :: int
  strikePrice :: int
  sellingPrice :: int
  totalAmount :: int
  discountPercentage :: int
  couponCode :: string
  status :: booking_status
  bookingNotes :: "string option"
  cancelledAt :: "date option"
  cancellationReason :: "string option"
  completedAt :: "date option"
  createdAt :: date
  updatedAt :: date

text \<open>
  The user documents that \<open>populate("userId", "name email phone")\<close> reads. The user
  model itself is not among the source files; only these three fields are used.
\<close>

record userDoc =
  userName :: string
  email :: string
  phone :: string

text \<open>The three collections. Bookings are kept in insertion order.\<close>

record store =
  products :: "objectId \<rightharpoonup> product"
  users :: "objectId \<rightharpoonup> userDoc"
  bookings :: "booking list"

section \<open>Requests, responses and the environment\<close>

text \<open>
  Errors thrown inside a handler's \<open>try\<close> block. \<open>OtherError\<close> stands for any
  failure of the persistence or image-storage collaborator.
\<close>

datatype js_error =
    CastError
  | ValidationError "string list"
  | DuplicateKeyError string
  | TypeError
  | OtherError string

type_synonym fault = "js_error option"

text \<open>
  What a request finds outside the store: the clock, the random number (see
  \<open>randomToString36\<close>), the \<open>_id\<close> the driver assigns to a new document, and for
  each awaited collaborator call whether it throws (\<open>None\<close>: it does not):
  \<open>readFault\<close> for the query that loads the document, \<open>writeFault\<close> for the first
  write (\<open>Booking.create\<close>, the \<open>save\<close> inside \<open>updateStatus\<close>,
  \<open>findByIdAndUpdate\<close>), \<open>saveFault\<close> for the handler's own final \<open>save\<close>,
  \<open>imageFault\<close> for \<open>deleteImage\<close>.
\<close>

record env =
  now :: nat
  randomDigits :: "nat list"
  freshId :: objectId
  readFault :: fault
  writeFault :: fault
  saveFault :: fault
  imageFault :: fault

text \<open>\<open>req.user\<close>, as the authentication middleware supplies it.\<close>

record user =
  uid :: objectId
  role :: string

text \<open>
  \<open>res.status(c).json({success, message, error, ...})\<close>. The \<open>error\<close> field carries
  the caught error in place of its message text.
\<close>

record 'a response =
  statusCode :: nat
  success :: "bool option"
  message :: "string option"
  error :: "js_error option"
  payload :: "'a option"

definition reply :: "nat \<Rightarrow> string \<Rightarrow> 'a response" where
  "reply c m = \<lparr>statusCode = c, success = None, message = Some m, error = None, payload = None\<rparr>"

definition replyFalse :: "nat \<Rightarrow> string \<Rightarrow> 'a response" where
  "replyFalse c m =
     \<lparr>statusCode = c, success = Some False, message = Some m, error = None, payload = None\<rparr>"

text \<open>
  The body of \<open>POST /api/bookings\<close>. A field is \<open>None\<close> when the JSON body does
  not have it. \<open>req_bookingDate\<close> is the supplied value as Mongoose's cast to
  \<open>Date\<close> sees it: a date or a value that does not cast; an empty value is
  \<open>None\<close> as well.
\<close>

datatype date_value = ValidDate date | InvalidDate

record create_body =
  req_productId :: "objectId option"
  req_productName :: "string option"
  req_productImage :: "string option"
  req_productCategory :: "string option"
  req_customerName :: "string option"
  req_customerPhone :: "string option"
  req_customerAddress :: "string option"
  req_quantity :: "int option"
  req_bookingDate :: "date_value option"
  req_actualPrice :: "int option"
  req_strikePrice :: "int option"
  req_sellingPrice :: "int option"
  req_totalAmount :: "int option"
  req_discountPercentage :: "int option"

text \<open>JavaScript's \<open>!x\<close> on a string and on a number, and \<open>x || 0\<close>.\<close>

definition falsyStr :: "string option \<Rightarrow> bool" where
  "falsyStr v = (v = None \<or> v = Some [])"

definition falsyNum :: "int option \<Rightarrow> bool" where
  "falsyNum v = (v = None \<or> v = Some 0)"

definition orZero :: "int option \<Rightarrow> int" where
  "orZero v = (case v of None \<Rightarrow> 0 | Some x \<Rightarrow> x)"

definition strOf :: "string option \<Rightarrow> string" where
  "strOf v = (case v of None \<Rightarrow> [] | Some x \<Rightarrow> x)"

text \<open>\<open>String.prototype.trim\<close> on ASCII: space, tab, LF, VT, FF, CR.\<close>

definition isSpace :: "char \<Rightarrow> bool" where
  "isSpace c = (c \<in> set [CHR '' '', CHR 0x09, CHR 0x0A, CHR 0x0B, CHR 0x0C, CHR 0x0D])"

definition trim :: "string \<Rightarrow> string" where
  "trim s = rev (dropWhile isSpace (rev (dropWhile isSpace s)))"


section \<open>The persistence collaborator\<close>

text \<open>
  Each query either throws the error the environment gives it or answers from the
  store. A malformed id makes Mongoose throw \<open>CastError\<close>; that is the fault
  \<open>Some CastError\<close>.
\<close>

definition Product_findById :: "fault \<Rightarrow> objectId \<Rightarrow> store \<Rightarrow> js_error + product option" where
  "Product_findById f i st = (case f of Some e \<Rightarrow> Inl e | None \<Rightarrow> Inr (products st i))"

definition Booking_findById :: "fault \<Rightarrow> objectId \<Rightarrow> store \<Rightarrow> js_error + booking option" where
  "Booking_findById f i st =
     (case f of Some e \<Rightarrow> Inl e | None \<Rightarrow> Inr (find (\<lambda>b. bookingId b = i) (bookings st)))"

definition Booking_findOne_couponCode :: "fault \<Rightarrow> string \<Rightarrow> store \<Rightarrow> js_error + booking option" where
  "Booking_findOne_couponCode f c st =
     (case f of Some e \<Rightarrow> Inl e | None \<Rightarrow> Inr (find (\<lambda>b. couponCode b = c) (bookings st)))"

text \<open>
  \<open>populate("productId", ...)\<close> and \<open>populate("userId", ...)\<close> replace the two
  references by the referenced documents, or by \<open>null\<close> when there is none.
\<close>

record populated =
  pb_booking :: booking
  pb_product :: "product option"
  pb_user :: "userDoc option"

definition populate :: "booking \<Rightarrow> store \<Rightarrow> populated" where
  "populate b st =
     \<lparr>pb_booking = b, pb_product = products st (productId b), pb_user = users st (userId b)\<rparr>"

text \<open>Writing a loaded document back: the stored document with its \<open>_id\<close> is replaced.\<close>

fun replaceDoc :: "booking \<Rightarrow> booking list \<Rightarrow> booking list" where
  "replaceDoc b [] = []"
| "replaceDoc b (x # xs) =
     (if bookingId x = bookingId b then b # xs else x # replaceDoc b xs)"

definition Booking_save :: "fault \<Rightarrow> date \<Rightarrow> booking \<Rightarrow> store \<Rightarrow> js_error + (booking \<times> store)" where
  "Booking_save f t b st =
     (case f of
        Some e \<Rightarrow> Inl e
      | None \<Rightarrow>
          (let b' = b\<lparr>updatedAt := t\<rparr>
           in Inr (b', st\<lparr>bookings := replaceDoc b' (bookings st)\<rparr>)))"

text \<open>
  \<^verbatim>\<open>
  bookingSchema.methods.updateStatus = function(newStatus) {
    this.status = newStatus;
    if (newStatus === 'cancelled') {
      this.cancelledAt = new Date();
    } else if (newStatus === 'completed') {
      this.completedAt = new Date();
    }
    return this.save();
  };
  \<close>
\<close>

definition updateStatus ::
  "fault \<Rightarrow> date \<Rightarrow> booking \<Rightarrow> booking_status \<Rightarrow> store \<Rightarrow> js_error + (booking \<times> store)" where
  "updateStatus f t this newStatus st =
     (let this1 = this\<lparr>status := newStatus\<rparr>;
          this2 = (if newStatus = Cancelled then this1\<lparr>cancelledAt := Some t\<rparr>
                   else if newStatus = Completed then this1\<lparr>completedAt := Some t\<rparr>
                   else this1)
      in Booking_save f t this2 st)"

text \<open>
  The document the create handler hands to \<open>Booking.create\<close>. The three product
  fields come from the request body and may be missing.
\<close>

record new_booking =
  nb_productId :: objectId
  nb_productName :: "string option"
  nb_productImage :: "string option"
  nb_productCategory :: "string option"
  nb_userId :: objectId
  nb_customerName :: string
  nb_customerPhone :: string
  nb_customerAddress :: string
  nb_quantity :: int
  nb_bookingDate :: date_value
  nb_actualPrice :: int
  nb_strikePrice :: int
  nb_sellingPrice :: int
  nb_totalAmount :: int
  nb_discountPercentage :: int
  nb_status :: booking_status

text \<open>
  Schema validation, in schema order: the paths that fail. A required string fails
  when it is missing or empty (after \<open>trim\<close> where the schema trims); \<open>quantity\<close>
  has \<open>min: 1\<close>, the prices \<open>min: 0\<close>, the discount \<open>min: 0, max: 100\<close>; the
  booking date must cast to a date.
\<close>

definition failsIf :: "bool \<Rightarrow> string \<Rightarrow> string list" where
  "failsIf c path = (if c then [path] else [])"

definition validationErrors :: "new_booking \<Rightarrow> string list" where
  "validationErrors d =
     failsIf (nb_productId d = []) ''productId'' @
     failsIf (falsyStr (nb_productName d)) ''productName'' @
     failsIf (falsyStr (nb_productImage d)) ''productImage'' @
     failsIf (falsyStr (nb_productCategory d)) ''productCategory'' @
     failsIf (nb_userId d = []) ''userId'' @
     failsIf (trim (nb_customerName d) = []) ''customerName'' @
     failsIf (trim (nb_customerPhone d) = []) ''customerPhone'' @
     failsIf (trim (nb_customerAddress d) = []) ''customerAddress'' @
     failsIf (nb_quantity d < 1) ''quantity'' @
     failsIf (nb_bookingDate d = InvalidDate) ''bookingDate'' @
     failsIf (nb_actualPrice d < 0) ''actualPrice'' @
     failsIf (nb_strikePrice d < 0) ''strikePrice'' @
     failsIf (nb_sellingPrice d < 0) ''sellingPrice'' @
     failsIf (nb_totalAmount d < 0) ''totalAmount'' @
     failsIf (nb_discountPercentage d < 0 \<or> 100 < nb_discountPercentage d) ''discountPercentage''"

text \<open>
  The document as stored: strings trimmed where the schema says so, the defaults
  filled in (\<open>orderDate: Date.now\<close>, \<open>couponCode: generateCouponCode()\<close> under the
  \<open>uppercase\<close> setter, the timestamps), the fields the handler does not pass left unset.
\<close>

definition newDocument :: "env \<Rightarrow> new_booking \<Rightarrow> booking" where
  "newDocument e d =
     \<lparr>bookingId = freshId e,
      productId = nb_productId d,
      productName = strOf (nb_productName d),
      productImage = strOf (nb_productImage d),
      productCategory = strOf (nb_productCategory d),
      userId = nb_userId d,
      customerName = trim (nb_customerName d),
      customerPhone = trim (nb_customerPhone d),
      customerAddress = trim (nb_customerAddress d),
      quantity = nb_quantity d,
      bookingDate = (case nb_bookingDate d of ValidDate t \<Rightarrow> t | InvalidDate \<Rightarrow> 0),
      orderDate = now e,
      actualPrice = nb_actualPrice d,
      strikePrice = nb_strikePrice d,
      sellingPrice = nb_sellingPrice d,
      totalAmount = nb_totalAmount d,
      discountPercentage = nb_discountPercentage d,
      couponCode = toUpperCase (generateCouponCode (now e) (randomDigits e)),
      status = nb_status d,
      bookingNotes = None,
      cancelledAt = None,
      cancellationReason = None,
      completedAt = None,
      createdAt = now e,
      updatedAt = now e\<rparr>"

text \<open>
  \<open>Booking.create(doc)\<close>: validate, then insert. The insert is refused when the
  \<open>_id\<close> or the coupon code (\<open>unique: true\<close>) is already in the collection.
\<close>

definition Booking_create :: "env \<Rightarrow> new_booking \<Rightarrow> store \<Rightarrow> js_error + (booking \<times> store)" where
  "Booking_create e d st =
     (let errs = validationErrors d
      in if errs \<noteq> [] then Inl (ValidationError errs)
         else case writeFault e of
                Some err \<Rightarrow> Inl err
              | None \<Rightarrow>
                  (let b = newDocument e d
                   in if list_ex (\<lambda>x. bookingId x = bookingId b) (bookings st)
                      then Inl (DuplicateKeyError ''_id'')
                      else if list_ex (\<lambda>x. couponCode x = couponCode b) (bookings st)
                      then Inl (DuplicateKeyError ''couponCode'')
                      else Inr (b, st\<lparr>bookings := bookings st @ [b]\<rparr>)))"


section \<open>Booking handlers (routes/bookings.js)\<close>

text \<open>The \<open>catch\<close> block of a handler: status 500, a fixed message and the error.\<close>

definition caught :: "bool option \<Rightarrow> string \<Rightarrow> js_error \<Rightarrow> 'a response" where
  "caught s m e =
     \<lparr>statusCode = 500, success = s, message = Some m, error = Some e, payload = None\<rparr>"

definition isAdminUser :: "user \<Rightarrow> bool" where
  "isAdminUser u = (role u = ''admin'')"

text \<open>
  \<open>POST /api/bookings\<close>. \<open>requiredMissing\<close> is the condition of the handler's
  first \<open>if\<close>, \<open>documentOf\<close> the object it passes to \<open>Booking.create\<close>: the three
  product fields are the ones destructured from \<open>req.body\<close>, the owner is
  \<open>req.user._id\<close>. The checks run in the order of the source: required fields,
  product lookup, availability, then \<open>Booking.create\<close>.
\<close>

definition requiredMissing :: "create_body \<Rightarrow> bool" where
  "requiredMissing body =
     (falsyStr (req_productId body) \<or> falsyStr (req_customerName body) \<or>
      falsyStr (req_customerPhone body) \<or> falsyStr (req_customerAddress body) \<or>
      falsyNum (req_quantity body) \<or> req_bookingDate body = None)"

definition documentOf :: "user \<Rightarrow> create_body \<Rightarrow> new_booking" where
  "documentOf u body =
     \<lparr>nb_productId = strOf (req_productId body),
      nb_productName = req_productName body,
      nb_productImage = req_productImage body,
      nb_productCategory = req_productCategory body,
      nb_userId = uid u,
      nb_customerName = strOf (req_customerName body),
      nb_customerPhone = strOf (req_customerPhone body),
      nb_customerAddress = strOf (req_customerAddress body),
      nb_quantity = orZero (req_quantity body),
      nb_bookingDate = (case req_bookingDate body of None \<Rightarrow> InvalidDate | Some v \<Rightarrow> v),
      nb_actualPrice = orZero (req_actualPrice body),
      nb_strikePrice = orZero (req_strikePrice body),
      nb_sellingPrice = orZero (req_sellingPrice body),
      nb_totalAmount = orZero (req_totalAmount body),
      nb_discountPercentage = orZero (req_discountPercentage body),
      nb_status = Confirmed\<rparr>"

definition createBooking :: "env \<Rightarrow> user \<Rightarrow> create_body \<Rightarrow> store \<Rightarrow> booking response \<times> store" where
  "createBooking e u body st =
     (if requiredMissing body
      then (reply 400 ''Please provide all required fields'', st)
      else
        case Product_findById (readFault e) (strOf (req_productId body)) st of
          Inl err \<Rightarrow> (caught None ''Failed to create booking'' err, st)
        | Inr None \<Rightarrow> (reply 404 ''Product not found'', st)
        | Inr (Some product) \<Rightarrow>
            if availability product \<noteq> Available
            then (reply 400 ''Product is not available for booking'', st)
            else
              case Booking_create e (documentOf u body) st of
                Inl err \<Rightarrow> (caught None ''Failed to create booking'' err, st)
              | Inr (b, st') \<Rightarrow>
                  (\<lparr>statusCode = 201, success = Some True,
                    message = Some ''Booking created successfully'',
                    error = None, payload = Some b\<rparr>, st'))"

text \<open>
  \<open>GET /api/bookings/:id\<close>. \<open>isOwner\<close> reads \<open>booking.userId._id\<close> of the populated
  owner before the authorization test, so a booking whose owner document is gone
  throws \<open>TypeError\<close> for every requester.
\<close>

definition getBooking :: "env \<Rightarrow> user \<Rightarrow> objectId \<Rightarrow> store \<Rightarrow> populated response" where
  "getBooking e u i st =
     (case Booking_findById (readFault e) i st of
        Inl err \<Rightarrow> caught None ''Failed to fetch booking'' err
      | Inr None \<Rightarrow> reply 404 ''Booking not found''
      | Inr (Some b) \<Rightarrow>
          (let booking = populate b st;
               isAdmin = isAdminUser u
           in case pb_user booking of
                None \<Rightarrow> caught None ''Failed to fetch booking'' TypeError
              | Some owner \<Rightarrow>
                  (let isOwner = (userId b = uid u)
                   in if \<not> isAdmin \<and> \<not> isOwner
                      then reply 403 ''Not authorized to view this booking''
                      else \<lparr>statusCode = 200, success = Some True, message = None,
                            error = None, payload = Some booking\<rparr>)))"

text \<open>
  \<open>PATCH /api/bookings/:id/cancel\<close>. \<open>reason\<close> is \<open>req.body.reason\<close>. When the
  final \<open>save\<close> throws, the write made by \<open>updateStatus\<close> stays in the store.
\<close>

definition cancelBooking ::
  "env \<Rightarrow> user \<Rightarrow> objectId \<Rightarrow> string option \<Rightarrow> store \<Rightarrow> booking response \<times> store" where
  "cancelBooking e u i reason st =
     (case Booking_findById (readFault e) i st of
        Inl err \<Rightarrow> (caught None ''Failed to cancel booking'' err, st)
      | Inr None \<Rightarrow> (reply 404 ''Booking not found'', st)
      | Inr (Some booking) \<Rightarrow>
          (let isAdmin = isAdminUser u;
               isOwner = (userId booking = uid u)
           in if \<not> isAdmin \<and> \<not> isOwner
              then (reply 403 ''Not authorized to cancel this booking'', st)
              else if status booking = Cancelled
              then (reply 400 ''Booking is already cancelled'', st)
              else if status booking = Completed
              then (reply 400 ''Cannot cancel a completed booking'', st)
              else
                case updateStatus (writeFault e) (now e) booking Cancelled st of
                  Inl err \<Rightarrow> (caught None ''Failed to cancel booking'' err, st)
                | Inr (b1, st1) \<Rightarrow>
                    (let b2 = b1\<lparr>cancellationReason :=
                                 Some (if falsyStr reason
                                       then (if isAdmin then ''Cancelled by Admin''
                                             else ''Cancelled by customer'')
                                       else strOf reason)\<rparr>
                     in case Booking_save (saveFault e) (now e) b2 st1 of
                          Inl err \<Rightarrow> (caught None ''Failed to cancel booking'' err, st1)
                        | Inr (b3, st2) \<Rightarrow>
                            (\<lparr>statusCode = 200, success = Some True,
                              message = Some ''Booking cancelled successfully'',
                              error = None, payload = Some b3\<rparr>, st2))))"

text \<open>\<open>PATCH /api/bookings/:id/complete\<close>: the role is tested before the lookup.\<close>

definition completeBooking :: "env \<Rightarrow> user \<Rightarrow> objectId \<Rightarrow> store \<Rightarrow> booking response \<times> store" where
  "completeBooking e u i st =
     (if role u \<noteq> ''admin''
      then (replyFalse 403 ''Not authorized. Admin access required.'', st)
      else
        case Booking_findById (readFault e) i st of
          Inl err \<Rightarrow> (caught (Some False) ''Failed to complete booking'' err, st)
        | Inr None \<Rightarrow> (replyFalse 404 ''Booking not found'', st)
        | Inr (Some booking) \<Rightarrow>
            if status booking = Completed
            then (replyFalse 400 ''Booking is already marked as completed'', st)
            else if status booking = Cancelled
            then (replyFalse 400 ''Cannot complete a cancelled booking'', st)
            else
              case updateStatus (writeFault e) (now e) booking Completed st of
                Inl err \<Rightarrow> (caught (Some False) ''Failed to complete booking'' err, st)
              | Inr (b1, st1) \<Rightarrow>
                  (case Booking_save (saveFault e) (now e) b1 st1 of
                     Inl err \<Rightarrow> (caught (Some False) ''Failed to complete booking'' err, st1)
                   | Inr (b2, st2) \<Rightarrow>
                       (\<lparr>statusCode = 200, success = Some True,
                         message = Some ''Booking marked as completed successfully'',
                         error = None, payload = Some b2\<rparr>, st2)))"

text \<open>\<open>GET /api/bookings/coupon/:couponCode\<close>, for an ASCII coupon code.\<close>

definition getBookingByCoupon :: "env \<Rightarrow> user \<Rightarrow> string \<Rightarrow> store \<Rightarrow> populated response" where
  "getBookingByCoupon e u c st =
     (case Booking_findOne_couponCode (readFault e) (toUpperCase c) st of
        Inl err \<Rightarrow> caught (Some False) ''Failed to fetch booking'' err
      | Inr None \<Rightarrow> replyFalse 404 ''Booking not found with this coupon code''
      | Inr (Some b) \<Rightarrow>
          (let booking = populate b st;
               isAdmin = isAdminUser u
           in case pb_user booking of
                None \<Rightarrow> caught (Some False) ''Failed to fetch booking'' TypeError
              | Some owner \<Rightarrow>
                  (let isOwner = (userId b = uid u)
                   in if \<not> isAdmin \<and> \<not> isOwner
                      then replyFalse 403 ''Not authorized to view this booking''
                      else \<lparr>statusCode = 200, success = Some True, message = None,
                            error = None, payload = Some booking\<rparr>)))"

text \<open>
  The same handler for a coupon code of any characters. The code is given as the
  list of its code points. \<open>String.prototype.toUpperCase\<close> replaces each code
  point by the code points of its uppercase form, taken from the Unicode tables of
  the JavaScript engine: the letters \<open>a\<close> to \<open>z\<close> (97 to 122) go to \<open>A\<close> to
  \<open>Z\<close>, the other ASCII code points stay, and for a code point from 128 on the
  table \<open>tbl\<close>, a parameter, gives the uppercase form (for U+00DF it is the two
  code points of \<open>SS\<close>). A stored coupon code is compared by its code points.
\<close>

type_synonym ustring = "nat list"

type_synonym case_table = "nat \<Rightarrow> nat list"

definition codePoints :: "string \<Rightarrow> ustring" where
  "codePoints s = map of_char s"

definition isAscii :: "string \<Rightarrow> bool" where
  "isAscii s = list_all (\<lambda>c. (of_char c :: nat) < 128) s"

definition upperPoint :: "case_table \<Rightarrow> nat \<Rightarrow> nat list" where
  "upperPoint tbl p =
     (if 97 \<le> p \<and> p \<le> 122 then [p - 32] else if p < 128 then [p] else tbl p)"

definition toUpperCaseU :: "case_table \<Rightarrow> ustring \<Rightarrow> ustring" where
  "toUpperCaseU tbl s = concat (map (upperPoint tbl) s)"

definition Booking_findOne_couponCodeU ::
  "fault \<Rightarrow> ustring \<Rightarrow> store \<Rightarrow> js_error + booking option" where
  "Booking_findOne_couponCodeU f c st =
     (case f of
        Some e \<Rightarrow> Inl e
      | None \<Rightarrow> Inr (find (\<lambda>b. codePoints (couponCode b) = c) (bookings st)))"

definition getBookingByCouponU ::
  "case_table \<Rightarrow> env \<Rightarrow> user \<Rightarrow> ustring \<Rightarrow> store \<Rightarrow> populated response" where
  "getBookingByCouponU tbl e u c st =
     (case Booking_findOne_couponCodeU (readFault e) (toUpperCaseU tbl c) st of
        Inl err \<Rightarrow> caught (Some False) ''Failed to fetch booking'' err
      | Inr None \<Rightarrow> replyFalse 404 ''Booking not found with this coupon code''
      | Inr (Some b) \<Rightarrow>
          (let booking = populate b st;
               isAdmin = isAdminUser u
           in case pb_user booking of
                None \<Rightarrow> caught (Some False) ''Failed to fetch booking'' TypeError
              | Some owner \<Rightarrow>
                  (let isOwner = (userId b = uid u)
                   in if \<not> isAdmin \<and> \<not> isOwner
                      then replyFalse 403 ''Not authorized to view this booking''
                      else \<lparr>statusCode = 200, success = Some True, message = None,
                            error = None, payload = Some booking\<rparr>)))"

section \<open>Product handlers (routes/products.js)\<close>

text \<open>
  The \<open>catch\<close> block of the product handlers: 400 for a \<open>CastError\<close>, 500 for
  anything else; the error itself is not sent.
\<close>

definition productCaught :: "string \<Rightarrow> js_error \<Rightarrow> 'a response" where
  "productCaught m e = (if e = CastError then reply 400 ''Invalid product ID'' else reply 500 m)"

text \<open>
  \<open>GET /api/products/:id\<close>. The increment of \<open>views\<close> is awaited inside the
  handler's \<open>try\<close> block; the response carries the product as it was read.
\<close>

definition getProduct :: "env \<Rightarrow> objectId \<Rightarrow> store \<Rightarrow> product response \<times> store" where
  "getProduct e i st =
     (case Product_findById (readFault e) i st of
        Inl err \<Rightarrow> (productCaught ''Server error while fetching product'' err, st)
      | Inr None \<Rightarrow> (reply 404 ''Product not found'', st)
      | Inr (Some product) \<Rightarrow>
          if \<not> isActive product then (reply 404 ''Product not available'', st)
          else
            case writeFault e of
              Some err \<Rightarrow> (productCaught ''Server error while fetching product'' err, st)
            | None \<Rightarrow>
                (\<lparr>statusCode = 200, success = None, message = None, error = None,
                  payload = Some product\<rparr>,
                 st\<lparr>products := (products st)(i \<mapsto> product\<lparr>views := views product + 1\<rparr>)\<rparr>))"

text \<open>
  \<open>DELETE /api/products/:id\<close>, the handler proper (it runs after the
  \<open>authenticateToken\<close> and \<open>requireAdmin\<close> middleware): the images are released,
  then \<open>isActive\<close> is cleared and the product saved.
\<close>

definition deleteProduct :: "env \<Rightarrow> objectId \<Rightarrow> store \<Rightarrow> unit response \<times> store" where
  "deleteProduct e i st =
     (case Product_findById (readFault e) i st of
        Inl err \<Rightarrow> (productCaught ''Server error while deleting product'' err, st)
      | Inr None \<Rightarrow> (reply 404 ''Product not found'', st)
      | Inr (Some product) \<Rightarrow>
          (case (if imagePublicIds product \<noteq> [] then imageFault e else None) of
             Some err \<Rightarrow> (productCaught ''Server error while deleting product'' err, st)
           | None \<Rightarrow>
               (case saveFault e of
                  Some err \<Rightarrow> (productCaught ''Server error while deleting product'' err, st)
                | None \<Rightarrow>
                    (reply 200 ''Product deleted successfully'',
                     st\<lparr>products := (products st)(i \<mapsto> product\<lparr>isActive := False\<rparr>)\<rparr>))))"

section \<open>Sequences of requests\<close>

text \<open>
  Requests are served one after the other; each handler runs from its lookup to its
  response without another request in between.
\<close>

datatype operation =
    Create env user create_body
  | Cancel env user objectId "string option"
  | Complete env user objectId
  | GetProduct env objectId
  | DeleteProduct env objectId

fun apply_op :: "store \<Rightarrow> operation \<Rightarrow> store" where
  "apply_op st (Create e u body) = snd (createBooking e u body st)"
| "apply_op st (Cancel e u i reason) = snd (cancelBooking e u i reason st)"
| "apply_op st (Complete e u i) = snd (completeBooking e u i st)"
| "apply_op st (GetProduct e i) = snd (getProduct e i st)"
| "apply_op st (DeleteProduct e i) = snd (deleteProduct e i st)"

fun run :: "store \<Rightarrow> operation list \<Rightarrow> store" where
  "run st [] = st"
| "run st (x # xs) = run (apply_op st x) xs"

text \<open>The edges of the status machine: staying, or leaving \<open>Confirmed\<close>.\<close>

definition allowed :: "booking_status \<Rightarrow> booking_status \<Rightarrow> bool" where
  "allowed s t = (s = t \<or> (s = Confirmed \<and> (t = Cancelled \<or> t = Completed)))"

definition statusOf :: "store \<Rightarrow> objectId \<Rightarrow> booking_status option" where
  "statusOf st i = map_option status (find (\<lambda>b. bookingId b = i) (bookings st))"

text \<open>The timestamps agree with the status.\<close>

definition stampsAgree :: "booking \<Rightarrow> bool" where
  "stampsAgree b =
     ((cancelledAt b \<noteq> None) = (status b = Cancelled) \<and>
      (completedAt b \<noteq> None) = (status b = Completed))"


section \<open>Example data\<close>

text \<open>Concrete documents, requesters and requests, used to evaluate the handlers.\<close>

definition ex_productId :: objectId where
  "ex_productId = ''65a1f0c2b7e4d90012ab0001''"

definition ex_ownerId :: objectId where
  "ex_ownerId = ''65a1f0c2b7e4d90012ab00a1''"

definition ex_otherId :: objectId where
  "ex_otherId = ''65a1f0c2b7e4d90012ab00a2''"

definition ex_adminId :: objectId where
  "ex_adminId = ''65a1f0c2b7e4d90012ab00ad''"

definition ex_bookingId :: objectId where
  "ex_bookingId = ''65a1f0c2b7e4d90012ab0b01''"

definition ex_bookingId2 :: objectId where
  "ex_bookingId2 = ''65a1f0c2b7e4d90012ab0b02''"

definition ex_freshId :: objectId where
  "ex_freshId = ''65a1f0c2b7e4d90012ab0b09''"

definition ex_product :: product where
  "ex_product =
     \<lparr>name = ''Laptop'', description = ''A refurbished laptop'', category = ''Laptops'',
      availability = Available, features = [''8GB RAM''],
      images = [''front.jpg'', ''back.jpg''], imagePublicIds = [''img1'', ''img2''],
      stock = 1, isActive = True, views = 0, likes = 0, createdBy = ex_adminId\<rparr>"

definition ex_users :: "objectId \<rightharpoonup> userDoc" where
  "ex_users =
     [ex_ownerId \<mapsto> \<lparr>userName = ''Asha'', email = ''asha@example.com'', phone = ''9000000001''\<rparr>]"

definition ex_store :: "product \<Rightarrow> booking list \<Rightarrow> store" where
  "ex_store p bs = \<lparr>products = [ex_productId \<mapsto> p], users = ex_users, bookings = bs\<rparr>"

definition ex_owner :: user where
  "ex_owner = \<lparr>uid = ex_ownerId, role = ''user''\<rparr>"

definition ex_other :: user where
  "ex_other = \<lparr>uid = ex_otherId, role = ''user''\<rparr>"

definition ex_admin :: user where
  "ex_admin = \<lparr>uid = ex_adminId, role = ''admin''\<rparr>"

definition ex_env :: env where
  "ex_env =
     \<lparr>now = 1704067200000, randomDigits = [18, 0, 35, 7, 9, 12, 3, 30, 22, 5, 17],
      freshId = ex_freshId,
      readFault = None, writeFault = None, saveFault = None, imageFault = None\<rparr>"

definition ex_body :: create_body where
  "ex_body =
     \<lparr>req_productId = Some ex_productId, req_productName = Some ''Phone'',
      req_productImage = Some ''phone.jpg'', req_productCategory = Some ''Audio'',
      req_customerName = Some ''Asha'', req_customerPhone = Some ''9000000001'',
      req_customerAddress = Some ''12 Lake Road'', req_quantity = Some 2,
      req_bookingDate = Some (ValidDate 1704067200000),
      req_actualPrice = Some 500, req_strikePrice = None, req_sellingPrice = Some 450,
      req_totalAmount = Some 900, req_discountPercentage = Some 10\<rparr>"

definition ex_booking :: booking where
  "ex_booking =
     \<lparr>bookingId = ex_bookingId, productId = ex_productId, productName = ''Laptop'',
      productImage = ''front.jpg'', productCategory = ''Laptops'', userId = ex_ownerId,
      customerName = ''Asha'', customerPhone = ''9000000001'',
      customerAddress = ''12 Lake Road'', quantity = 1, bookingDate = 1704067200000,
      orderDate = 1700000000000, actualPrice = 500, strikePrice = 0, sellingPrice = 450,
      totalAmount = 450, discountPercentage = 10, couponCode = ''GIT-LQU5M2O0-I0Z7'',
      status = Confirmed, bookingNotes = None, cancelledAt = None,
      cancellationReason = None, completedAt = None,
      createdAt = 1700000000000, updatedAt = 1700000000000\<rparr>"

definition ex_cancelled :: booking where
  "ex_cancelled =
     ex_booking\<lparr>status := Cancelled, cancelledAt := Some 1700000500000,
                cancellationReason := Some ''Cancelled by customer''\<rparr>"

definition ex_completed :: booking where
  "ex_completed =
     ex_booking\<lparr>bookingId := ex_bookingId2, couponCode := ''GIT-LQU5M2O1-AB12'',
                status := Completed, completedAt := Some 1700000600000\<rparr>"

text \<open>
  An excerpt of the uppercase table: U+00DF goes to \<open>SS\<close>, U+00E9 to U+00C9, and
  every other code point, the Kelvin sign U+212A among them, to itself.
\<close>

definition ex_table :: case_table where
  "ex_table p = (if p = 223 then [83, 83] else if p = 233 then [201] else [p])"

section \<open>Case conversion and base-36 digits\<close>

lemmas char_eval =
  upperChar_def lowerChar_def lowerLetters_def upperLetters_def isUpperAlnum_def

lemma upper_fixed: "\<forall>u\<in>set (upperLetters @ ''0123456789''). upperChar u = u"
  by (simp add: char_eval)

lemma lower_upper_pairs: "\<forall>(u, l)\<in>set (zip upperLetters lowerLetters). upperChar l = u"
  by (simp add: char_eval)

lemma upperChar_class: "isUpperAlnum c \<Longrightarrow> upperChar c = c"
  using upper_fixed unfolding isUpperAlnum_def by blast

lemma upperChar_idem: "upperChar (upperChar c) = upperChar c"
proof (cases "map_of (zip lowerLetters upperLetters) c")
  case None
  then show ?thesis by (simp add: upperChar_def)
next
  case (Some u)
  then have "u \<in> set upperLetters"
    by (auto dest!: map_of_SomeD set_zip_rightD)
  then have "upperChar u = u" using upper_fixed by auto
  with Some show ?thesis by (simp add: upperChar_def)
qed

lemma upperChar_lowerChar: "upperChar (lowerChar c) = upperChar c"
proof (cases "map_of (zip upperLetters lowerLetters) c")
  case None
  then show ?thesis by (simp add: lowerChar_def)
next
  case (Some l)
  then have m: "(c, l) \<in> set (zip upperLetters lowerLetters)"
    by (rule map_of_SomeD)
  then have "upperChar l = c" using lower_upper_pairs by blast
  moreover from m have "c \<in> set upperLetters" by (rule set_zip_leftD)
  then have "upperChar c = c" using upper_fixed by auto
  ultimately show ?thesis using Some by (simp add: lowerChar_def)
qed

lemma toUpperCase_idem: "toUpperCase (toUpperCase s) = toUpperCase s"
  by (simp add: toUpperCase_def upperChar_idem)

lemma toUpperCase_toLowerCase: "toUpperCase (toLowerCase s) = toUpperCase s"
  by (simp add: toUpperCase_def toLowerCase_def upperChar_lowerChar)

lemma toUpperCase_class: "list_all isUpperAlnum s \<Longrightarrow> toUpperCase s = s"
  by (induction s) (simp_all add: toUpperCase_def upperChar_class)

lemma toUpperCase_Nil: "(toUpperCase s = []) = (s = [])"
  by (simp add: toUpperCase_def)

lemma toUpperCase_append: "toUpperCase (s @ t) = toUpperCase s @ toUpperCase t"
  by (simp add: toUpperCase_def)

lemma digits36_upper: "map upperChar digits36 = ''0123456789'' @ upperLetters"
  by (simp add: digits36_def upperChar_def lowerLetters_def upperLetters_def)

lemma digit36_upper: "d < 36 \<Longrightarrow> isUpperAlnum (upperChar (digit36 d))"
proof -
  assume d: "d < 36"
  then have "d < length digits36" by (simp add: digits36_def)
  then have "upperChar (digit36 d) = map upperChar digits36 ! d"
    by (simp add: digit36_def)
  also have "\<dots> \<in> set (map upperChar digits36)"
    using d by (intro nth_mem) (simp add: digits36_def)
  finally show ?thesis by (auto simp: digits36_upper isUpperAlnum_def)
qed

lemma toString36_upper: "list_all isUpperAlnum (toUpperCase (toString36 n))"
proof (induction n rule: toString36.induct)
  case (1 n)
  show ?case
  proof (cases "n < 36")
    case True
    then show ?thesis
      by (subst toString36.simps) (simp add: toUpperCase_def digit36_upper)
  next
    case False
    with 1 show ?thesis
      by (subst toString36.simps) (simp add: toUpperCase_def digit36_upper)
  qed
qed

lemma toString36_nonempty: "toString36 n \<noteq> []"
  by (subst toString36.simps) simp

lemma substring_random: "substring (randomToString36 ds) 2 6 = map digit36 (take 4 ds)"
  by (simp add: substring_def randomToString36_def take_map)

lemma suffix_upper:
  "\<forall>d\<in>set ds. d < 36 \<Longrightarrow> list_all isUpperAlnum (toUpperCase (map digit36 (take k ds)))"
  by (auto simp: toUpperCase_def list_all_iff digit36_upper dest: in_set_takeD)

lemma dash_outside_class: "\<not> isUpperAlnum CHR ''-''"
  by (simp add: char_eval)

lemma couponParts_build:
  assumes "ts \<noteq> []" "list_all isUpperAlnum ts" "list_all isUpperAlnum rs"
  shows "couponParts (''GIT-'' @ ts @ ''-'' @ rs) = Some (ts, rs)"
proof -
  have t: "takeWhile isUpperAlnum (ts @ CHR ''-'' # rs) = ts"
    using assms(2) dash_outside_class by (simp add: takeWhile_append2 list_all_iff)
  have d: "dropWhile isUpperAlnum (ts @ CHR ''-'' # rs) = CHR ''-'' # rs"
    using assms(2) dash_outside_class by (simp add: dropWhile_append2 list_all_iff)
  show ?thesis using assms t d by (simp add: couponParts_def)
qed

lemma generateCouponCode_shape:
  "generateCouponCode t rnd =
     ''GIT-'' @ toUpperCase (toString36 t) @ ''-'' @ toUpperCase (map digit36 (take 4 rnd))"
  by (simp add: generateCouponCode_def substring_random)

lemma generateCouponCode_parts:
  assumes "\<forall>d\<in>set rnd. d < 36"
  shows "couponParts (generateCouponCode t rnd) =
     Some (toUpperCase (toString36 t), toUpperCase (map digit36 (take 4 rnd)))"
  unfolding generateCouponCode_shape
  by (rule couponParts_build)
     (simp_all add: toString36_upper suffix_upper[OF assms] toString36_nonempty toUpperCase_Nil)

lemma upper_GIT: "toUpperCase ''GIT-'' = ''GIT-''" "toUpperCase ''-'' = ''-''"
  by (simp_all add: toUpperCase_def upperChar_def lowerLetters_def upperLetters_def)

lemma generateCouponCode_upper:
  "toUpperCase (generateCouponCode t rnd) = generateCouponCode t rnd"
  unfolding generateCouponCode_shape
  by (simp add: toUpperCase_append toUpperCase_idem upper_GIT del: append.simps)

lemmas coupon_eval =
  generateCouponCode_def toString36.simps toUpperCase_def char_eval digit36_def digits36_def
  substring_def randomToString36_def matchesCouponPattern_def matchesCouponPatternUpTo_def
  couponParts_def

section \<open>The coupon code generator\<close>

lemma generateCouponCode_format:
  assumes "\<forall>d\<in>set rnd. d < 36"
  shows "generateCouponCode t rnd =
           ''GIT-'' @ toUpperCase (toString36 t) @ ''-'' @ toUpperCase (map digit36 (take 4 rnd))
         \<and> matchesCouponPatternUpTo 4 (generateCouponCode t rnd)
         \<and> matchesCouponPattern 4 (generateCouponCode t rnd) = (4 \<le> length rnd)"
proof -
  have len: "length (toUpperCase (map digit36 (take 4 rnd))) = min (length rnd) 4"
    by (simp add: toUpperCase_def)
  have upto: "matchesCouponPatternUpTo 4 (generateCouponCode t rnd)"
    using generateCouponCode_parts[OF assms, of t] len
    by (simp add: matchesCouponPatternUpTo_def)
  have exact: "matchesCouponPattern 4 (generateCouponCode t rnd) = (4 \<le> length rnd)"
    using generateCouponCode_parts[OF assms, of t] len
    by (auto simp: matchesCouponPattern_def)
  from generateCouponCode_shape[of t rnd] upto exact show ?thesis by blast
qed

text \<open>
  Claim C7. The coupon code is \<open>GIT-\<close>, the uppercased base-36 timestamp, \<open>-\<close>
  and a random suffix, claimed to have 4 characters for every timestamp and every
  random number. At the random number 0.5, whose \<open>toString(36)\<close> is \<open>"0.i"\<close>,
  \<open>substring(2, 6)\<close> has one character to take: the code generated at clock reading
  1704067200000 is \<open>GIT-LQU5M2O0-I\<close>, which does not match
  \<open>GIT-[A-Z0-9]+-[A-Z0-9]{4}\<close>.
\<close>

theorem generateCouponCode_short_suffix:
  "generateCouponCode 1704067200000 [18] = ''GIT-LQU5M2O0-I''
   \<and> \<not> matchesCouponPattern 4 (generateCouponCode 1704067200000 [18])"
  by (simp add: coupon_eval)


section \<open>The store under the booking handlers\<close>

lemma find_replaceDoc:
  "find (\<lambda>x. bookingId x = i) (replaceDoc b bs) =
     (if i = bookingId b \<and> find (\<lambda>x. bookingId x = i) bs \<noteq> None then Some b
      else find (\<lambda>x. bookingId x = i) bs)"
  by (induction bs) auto

lemma set_replaceDoc: "set (replaceDoc b bs) \<subseteq> insert b (set bs)"
  by (induction bs) auto

lemma find_append_keep:
  "find P xs = Some x \<Longrightarrow> find P (xs @ ys) = Some x"
  by (induction xs) auto

lemma find_bookingId: "find (\<lambda>x. bookingId x = i) bs = Some b \<Longrightarrow> bookingId b = i"
  by (induction bs) (auto split: if_splits)

lemma allowed_refl: "allowed s s"
  by (simp add: allowed_def)

lemma allowed_trans: "allowed s t \<Longrightarrow> allowed t u \<Longrightarrow> allowed s u"
  by (auto simp: allowed_def)

lemma save_bookings:
  "Booking_save f t b st = Inr (b', st') \<Longrightarrow>
   b' = b\<lparr>updatedAt := t\<rparr> \<and> st' = st\<lparr>bookings := replaceDoc b' (bookings st)\<rparr>"
  by (auto simp: Booking_save_def Let_def split: option.splits)

lemma updateStatus_result:
  "updateStatus f t b s st = Inr (b', st') \<Longrightarrow>
   status b' = s \<and> bookingId b' = bookingId b \<and>
   st' = st\<lparr>bookings := replaceDoc b' (bookings st)\<rparr> \<and>
   b' = (if s = Cancelled then b\<lparr>status := s, cancelledAt := Some t, updatedAt := t\<rparr>
         else if s = Completed then b\<lparr>status := s, completedAt := Some t, updatedAt := t\<rparr>
         else b\<lparr>status := s, updatedAt := t\<rparr>)"
  by (auto simp: updateStatus_def Booking_save_def Let_def split: option.splits if_splits)


lemma replaceDoc_twice:
  "bookingId b = bookingId b' \<Longrightarrow> replaceDoc b (replaceDoc b' bs) = replaceDoc b bs"
  by (induction bs) auto

lemma find_in_set: "find P xs = Some x \<Longrightarrow> x \<in> set xs"
  by (induction xs) (auto split: if_splits)

lemma cancel_effect_disj:
  "bookings (snd (cancelBooking e u j r st)) = bookings st \<or>
   (\<exists>b b'. find (\<lambda>x. bookingId x = j) (bookings st) = Some b \<and> status b = Confirmed \<and>
      bookingId b' = bookingId b \<and> status b' = Cancelled \<and> cancelledAt b' = Some (now e) \<and>
      completedAt b' = completedAt b \<and> couponCode b' = couponCode b \<and>
      bookings (snd (cancelBooking e u j r st)) = replaceDoc b' (bookings st))"
proof (cases "Booking_findById (readFault e) j st")
  case (Inl err)
  then show ?thesis by (simp add: cancelBooking_def)
next
  case (Inr found)
  show ?thesis
  proof (cases found)
    case None
    with Inr show ?thesis by (simp add: cancelBooking_def)
  next
    case (Some b)
    with Inr have f: "find (\<lambda>x. bookingId x = j) (bookings st) = Some b"
      by (simp add: Booking_findById_def split: option.splits)
    show ?thesis
    proof (cases "(\<not> isAdminUser u \<and> userId b \<noteq> uid u) \<or> status b \<noteq> Confirmed")
      case True
      with Inr Some show ?thesis
        by (cases "status b") (auto simp: cancelBooking_def Let_def)
    next
      case False
      then have c: "status b = Confirmed" and a: "isAdminUser u \<or> userId b = uid u" by auto
      show ?thesis
      proof (cases "updateStatus (writeFault e) (now e) b Cancelled st")
        case (Inl err)
        with Inr Some c a show ?thesis by (auto simp: cancelBooking_def Let_def)
      next
        case upd: (Inr r1)
        obtain b1 st1 where r1: "r1 = (b1, st1)" by (cases r1)
        from upd r1 have u1: "status b1 = Cancelled" "bookingId b1 = bookingId b"
          "st1 = st\<lparr>bookings := replaceDoc b1 (bookings st)\<rparr>"
          "cancelledAt b1 = Some (now e)" "completedAt b1 = completedAt b"
          "couponCode b1 = couponCode b"
          by (auto dest!: updateStatus_result)
        define b2 where "b2 = b1\<lparr>cancellationReason :=
                                 Some (if falsyStr r
                                       then (if isAdminUser u then ''Cancelled by Admin''
                                             else ''Cancelled by customer'')
                                       else strOf r)\<rparr>"
        show ?thesis
        proof (cases "Booking_save (saveFault e) (now e) b2 st1")
          case (Inl err)
          with Inr Some c a upd r1 have "snd (cancelBooking e u j r st) = st1"
            by (auto simp: cancelBooking_def Let_def b2_def)
          with u1 f c show ?thesis by auto
        next
          case sv: (Inr r2)
          obtain b3 st2 where r2: "r2 = (b3, st2)" by (cases r2)
          from sv r2 have s2: "b3 = b2\<lparr>updatedAt := now e\<rparr>"
            "st2 = st1\<lparr>bookings := replaceDoc b3 (bookings st1)\<rparr>"
            by (auto dest!: save_bookings)
          from Inr Some c a upd r1 sv r2 have "snd (cancelBooking e u j r st) = st2"
            by (auto simp: cancelBooking_def Let_def b2_def)
          moreover have "bookings st2 = replaceDoc b3 (bookings st)"
            using s2 u1 by (simp add: replaceDoc_twice b2_def)
          moreover have "status b3 = Cancelled" "bookingId b3 = bookingId b"
            "cancelledAt b3 = Some (now e)" "completedAt b3 = completedAt b"
            "couponCode b3 = couponCode b"
            using s2 u1 by (simp_all add: b2_def)
          ultimately show ?thesis using f c by auto
        qed
      qed
    qed
  qed
qed


lemma complete_effect_disj:
  "bookings (snd (completeBooking e u j st)) = bookings st \<or>
   (\<exists>b b'. find (\<lambda>x. bookingId x = j) (bookings st) = Some b \<and> status b = Confirmed \<and>
      bookingId b' = bookingId b \<and> status b' = Completed \<and> completedAt b' = Some (now e) \<and>
      cancelledAt b' = cancelledAt b \<and> couponCode b' = couponCode b \<and>
      bookings (snd (completeBooking e u j st)) = replaceDoc b' (bookings st))"
proof (cases "role u \<noteq> ''admin''")
  case True
  then show ?thesis by (simp add: completeBooking_def)
next
  case adm: False
  show ?thesis
  proof (cases "Booking_findById (readFault e) j st")
    case (Inl err)
    with adm show ?thesis by (simp add: completeBooking_def)
  next
    case (Inr found)
    show ?thesis
    proof (cases found)
      case None
      with adm Inr show ?thesis by (simp add: completeBooking_def)
    next
      case (Some b)
      with Inr have f: "find (\<lambda>x. bookingId x = j) (bookings st) = Some b"
        by (simp add: Booking_findById_def split: option.splits)
      show ?thesis
      proof (cases "status b = Confirmed")
        case False
        with adm Inr Some show ?thesis
          by (cases "status b") (auto simp: completeBooking_def)
      next
        case c: True
        show ?thesis
        proof (cases "updateStatus (writeFault e) (now e) b Completed st")
          case (Inl err)
          with adm Inr Some c show ?thesis by (auto simp: completeBooking_def)
        next
          case upd: (Inr r1)
          obtain b1 st1 where r1: "r1 = (b1, st1)" by (cases r1)
          from upd r1 have u1: "status b1 = Completed" "bookingId b1 = bookingId b"
            "st1 = st\<lparr>bookings := replaceDoc b1 (bookings st)\<rparr>"
            "completedAt b1 = Some (now e)" "cancelledAt b1 = cancelledAt b"
            "couponCode b1 = couponCode b"
            by (auto dest!: updateStatus_result)
          show ?thesis
          proof (cases "Booking_save (saveFault e) (now e) b1 st1")
            case (Inl err)
            with adm Inr Some c upd r1 have "snd (completeBooking e u j st) = st1"
              by (auto simp: completeBooking_def)
            with u1 f c show ?thesis by auto
          next
            case sv: (Inr r2)
            obtain b2 st2 where r2: "r2 = (b2, st2)" by (cases r2)
            from sv r2 have s2: "b2 = b1\<lparr>updatedAt := now e\<rparr>"
              "st2 = st1\<lparr>bookings := replaceDoc b2 (bookings st1)\<rparr>"
              by (auto dest!: save_bookings)
            from adm Inr Some c upd r1 sv r2 have "snd (completeBooking e u j st) = st2"
              by (auto simp: completeBooking_def)
            moreover have "bookings st2 = replaceDoc b2 (bookings st)"
              using s2 u1 by (simp add: replaceDoc_twice)
            moreover have "status b2 = Completed" "bookingId b2 = bookingId b"
              "completedAt b2 = Some (now e)" "cancelledAt b2 = cancelledAt b"
              "couponCode b2 = couponCode b"
              using s2 u1 by simp_all
            ultimately show ?thesis using f c by auto
          qed
        qed
      qed
    qed
  qed
qed

lemma Booking_create_result:
  "Booking_create e d st = Inr (b, st') \<Longrightarrow>
   b = newDocument e d \<and> st' = st\<lparr>bookings := bookings st @ [b]\<rparr> \<and>
   validationErrors d = [] \<and> writeFault e = None \<and>
   \<not> list_ex (\<lambda>x. bookingId x = bookingId b) (bookings st) \<and>
   \<not> list_ex (\<lambda>x. couponCode x = couponCode b) (bookings st)"
  by (auto simp: Booking_create_def Let_def split: if_splits option.splits)

lemma validation_product_fields:
  "validationErrors d = [] \<Longrightarrow>
   \<not> falsyStr (nb_productName d) \<and> \<not> falsyStr (nb_productImage d) \<and>
   \<not> falsyStr (nb_productCategory d)"
  by (auto simp: validationErrors_def failsIf_def split: if_splits)

lemma createBooking_cases:
  "(\<exists>r. createBooking e u body st = (r, st) \<and> payload r = None \<and> statusCode r \<noteq> 201) \<or>
   (\<exists>b p. createBooking e u body st =
        (\<lparr>statusCode = 201, success = Some True,
          message = Some ''Booking created successfully'',
          error = None, payload = Some b\<rparr>, st\<lparr>bookings := bookings st @ [b]\<rparr>) \<and>
      b = newDocument e (documentOf u body) \<and>
      products st (strOf (req_productId body)) = Some p \<and> availability p = Available \<and>
      validationErrors (documentOf u body) = [])"
proof (cases "requiredMissing body")
  case True
  then show ?thesis by (simp add: createBooking_def reply_def)
next
  case req: False
  show ?thesis
  proof (cases "Product_findById (readFault e) (strOf (req_productId body)) st")
    case (Inl err)
    with req show ?thesis by (simp add: createBooking_def caught_def)
  next
    case (Inr found)
    show ?thesis
    proof (cases found)
      case None
      with req Inr show ?thesis by (simp add: createBooking_def reply_def)
    next
      case (Some p)
      with Inr have pf: "products st (strOf (req_productId body)) = Some p"
        by (simp add: Product_findById_def split: option.splits)
      show ?thesis
      proof (cases "availability p = Available")
        case False
        with req Inr Some show ?thesis by (simp add: createBooking_def reply_def)
      next
        case av: True
        show ?thesis
        proof (cases "Booking_create e (documentOf u body) st")
          case (Inl err)
          with req Inr Some av show ?thesis by (simp add: createBooking_def caught_def)
        next
          case cr: (Inr r)
          obtain b st' where r: "r = (b, st')" by (cases r)
          from cr r have res: "b = newDocument e (documentOf u body)"
            "st' = st\<lparr>bookings := bookings st @ [b]\<rparr>"
            "validationErrors (documentOf u body) = []"
            by (auto dest!: Booking_create_result)
          from req Inr Some av cr r res pf show ?thesis
            by (simp add: createBooking_def)
        qed
      qed
    qed
  qed
qed

lemma newDocument_fields:
  "status (newDocument e (documentOf u body)) = Confirmed"
  "cancelledAt (newDocument e (documentOf u body)) = None"
  "completedAt (newDocument e (documentOf u body)) = None"
  "productName (newDocument e (documentOf u body)) = strOf (req_productName body)"
  "productImage (newDocument e (documentOf u body)) = strOf (req_productImage body)"
  "productCategory (newDocument e (documentOf u body)) = strOf (req_productCategory body)"
  "userId (newDocument e (documentOf u body)) = uid u"
  "bookingId (newDocument e (documentOf u body)) = freshId e"
  "couponCode (newDocument e (documentOf u body)) =
     toUpperCase (generateCouponCode (now e) (randomDigits e))"
  by (simp_all add: newDocument_def documentOf_def)

lemma create_effect_disj:
  "bookings (snd (createBooking e u body st)) = bookings st \<or>
   (\<exists>b. status b = Confirmed \<and> cancelledAt b = None \<and> completedAt b = None \<and>
      couponCode b = toUpperCase (generateCouponCode (now e) (randomDigits e)) \<and>
      bookings (snd (createBooking e u body st)) = bookings st @ [b])"
  using createBooking_cases[of e u body st] by (auto simp: newDocument_fields)

lemma getProduct_bookings: "bookings (snd (getProduct e i st)) = bookings st"
  by (simp add: getProduct_def split: sum.splits option.splits)

lemma deleteProduct_bookings: "bookings (snd (deleteProduct e i st)) = bookings st"
  by (simp add: deleteProduct_def split: sum.splits option.splits)

lemma cancel_effect:
  obtains (same) "bookings (snd (cancelBooking e u j r st)) = bookings st"
  | (moved) b b' where "find (\<lambda>x. bookingId x = j) (bookings st) = Some b"
      "status b = Confirmed" "bookingId b' = bookingId b" "status b' = Cancelled"
      "cancelledAt b' = Some (now e)" "completedAt b' = completedAt b"
      "couponCode b' = couponCode b"
      "bookings (snd (cancelBooking e u j r st)) = replaceDoc b' (bookings st)"
  using cancel_effect_disj[of e u j r st] by blast

lemma complete_effect:
  obtains (same) "bookings (snd (completeBooking e u j st)) = bookings st"
  | (moved) b b' where "find (\<lambda>x. bookingId x = j) (bookings st) = Some b"
      "status b = Confirmed" "bookingId b' = bookingId b" "status b' = Completed"
      "completedAt b' = Some (now e)" "cancelledAt b' = cancelledAt b"
      "couponCode b' = couponCode b"
      "bookings (snd (completeBooking e u j st)) = replaceDoc b' (bookings st)"
  using complete_effect_disj[of e u j st] by blast

lemma create_effect:
  obtains (same) "bookings (snd (createBooking e u body st)) = bookings st"
  | (added) b where "status b = Confirmed" "cancelledAt b = None" "completedAt b = None"
      "couponCode b = toUpperCase (generateCouponCode (now e) (randomDigits e))"
      "bookings (snd (createBooking e u body st)) = bookings st @ [b]"
  using create_effect_disj[of e u body st] by blast

lemma status_after_replace:
  assumes "statusOf st i = Some s"
    and "find (\<lambda>x. bookingId x = j) (bookings st) = Some b" "status b = Confirmed"
    and "bookingId b' = bookingId b" "status b' = Cancelled \<or> status b' = Completed"
    and "bookings st' = replaceDoc b' (bookings st)"
  shows "\<exists>t. statusOf st' i = Some t \<and> allowed s t"
proof -
  from assms(2) have j: "bookingId b = j" by (rule find_bookingId)
  show ?thesis
  proof (cases "i = j")
    case True
    with assms j show ?thesis
      by (auto simp: statusOf_def find_replaceDoc allowed_def)
  next
    case False
    with assms j show ?thesis
      by (auto simp: statusOf_def find_replaceDoc allowed_def)
  qed
qed

lemma status_same_bookings:
  "statusOf st i = Some s \<Longrightarrow> bookings st' = bookings st \<Longrightarrow>
   \<exists>t. statusOf st' i = Some t \<and> allowed s t"
  by (auto simp: statusOf_def allowed_def)

lemma apply_op_status:
  assumes "statusOf st i = Some s"
  shows "\<exists>t. statusOf (apply_op st x) i = Some t \<and> allowed s t"
proof (cases x)
  case (Create e u body)
  show ?thesis
  proof (cases rule: create_effect[of e u body st])
    case same
    with Create assms show ?thesis by (intro status_same_bookings) simp_all
  next
    case (added b)
    with Create assms show ?thesis
      by (auto simp: statusOf_def find_append_keep allowed_def)
  qed
next
  case (Cancel e u j r)
  show ?thesis
  proof (cases rule: cancel_effect[of e u j r st])
    case same
    with Cancel assms show ?thesis by (intro status_same_bookings) simp_all
  next
    case (moved b b')
    with Cancel assms show ?thesis
      by (intro status_after_replace[of st i s j b b']) simp_all
  qed
next
  case (Complete e u j)
  show ?thesis
  proof (cases rule: complete_effect[of e u j st])
    case same
    with Complete assms show ?thesis by (intro status_same_bookings) simp_all
  next
    case (moved b b')
    with Complete assms show ?thesis
      by (intro status_after_replace[of st i s j b b']) simp_all
  qed
next
  case (GetProduct e j)
  with assms show ?thesis
    by (intro status_same_bookings) (simp_all add: getProduct_bookings)
next
  case (DeleteProduct e j)
  with assms show ?thesis
    by (intro status_same_bookings) (simp_all add: deleteProduct_bookings)
qed

lemma run_status:
  "statusOf st i = Some s \<Longrightarrow> \<exists>t. statusOf (run st xs) i = Some t \<and> allowed s t"
proof (induction xs arbitrary: st s)
  case Nil
  then show ?case by (simp add: allowed_refl)
next
  case (Cons x xs)
  from apply_op_status[OF Cons.prems, of x] obtain t
    where t: "statusOf (apply_op st x) i = Some t" "allowed s t" by blast
  from Cons.IH[OF t(1)] obtain t' where "statusOf (run (apply_op st x) xs) i = Some t'"
    "allowed t t'" by blast
  with t(2) show ?case by (auto intro: allowed_trans)
qed

section \<open>Evaluating the handlers on the example data\<close>

lemmas ex_data =
  ex_productId_def ex_ownerId_def ex_otherId_def ex_adminId_def ex_bookingId_def
  ex_bookingId2_def ex_freshId_def ex_product_def ex_users_def ex_store_def ex_owner_def
  ex_other_def ex_admin_def ex_env_def ex_body_def ex_booking_def ex_cancelled_def
  ex_completed_def

lemmas handler_eval =
  createBooking_def requiredMissing_def documentOf_def falsyStr_def falsyNum_def orZero_def
  strOf_def Product_findById_def Booking_create_def validationErrors_def failsIf_def trim_def
  isSpace_def newDocument_def cancelBooking_def completeBooking_def Booking_findById_def
  Booking_findOne_couponCode_def updateStatus_def Booking_save_def populate_def
  getBooking_def getBookingByCoupon_def getProduct_def deleteProduct_def productCaught_def
  reply_def replyFalse_def caught_def isAdminUser_def Let_def

section \<open>The status machine\<close>

lemma allowed_terminal: "allowed s t \<Longrightarrow> s \<noteq> Confirmed \<Longrightarrow> t = s"
  by (auto simp: allowed_def)

lemma cancel_terminal:
  assumes "find (\<lambda>x. bookingId x = i) (bookings st) = Some b" "status b \<noteq> Confirmed"
    "readFault e = None" "isAdminUser u \<or> userId b = uid u"
  shows "cancelBooking e u i r st =
           (reply 400 (if status b = Cancelled then ''Booking is already cancelled''
                       else ''Cannot cancel a completed booking''), st)"
  using assms by (cases "status b") (auto simp: cancelBooking_def Booking_findById_def)

lemma complete_terminal:
  assumes "find (\<lambda>x. bookingId x = i) (bookings st) = Some b" "status b \<noteq> Confirmed"
    "readFault e = None" "isAdminUser u"
  shows "completeBooking e u i st =
           (replyFalse 400 (if status b = Completed then ''Booking is already marked as completed''
                            else ''Cannot complete a cancelled booking''), st)"
  using assms
  by (cases "status b") (auto simp: completeBooking_def Booking_findById_def isAdminUser_def)

text \<open>
  Claim C1. Over any sequence of requests, whoever sends them and whatever fails on
  the way, the status of a booking changes only along \<open>Confirmed \<rightarrow> Cancelled\<close> or
  \<open>Confirmed \<rightarrow> Completed\<close>, and a booking that is cancelled or completed keeps its
  status. A cancel request that reaches the status test (the booking is found and
  the requester is its owner or an admin) on such a booking is answered 400
  "Booking is already cancelled" or "Cannot cancel a completed booking"; a complete
  request by an admin is answered 400 "Booking is already marked as completed" or
  "Cannot complete a cancelled booking". Neither changes the store. These 400
  responses are the handlers' conflict errors.
\<close>

theorem status_leaves_only_confirmed:
  "(statusOf st i = Some s \<longrightarrow>
      (\<exists>t. statusOf (run st xs) i = Some t \<and> allowed s t)) \<and>
   (find (\<lambda>x. bookingId x = i) (bookings st) = Some b \<and> status b \<noteq> Confirmed \<longrightarrow>
      statusOf (run st xs) i = Some (status b) \<and>
      (readFault e = None \<and> (isAdminUser u \<or> userId b = uid u) \<longrightarrow>
         cancelBooking e u i r st =
           (reply 400 (if status b = Cancelled then ''Booking is already cancelled''
                       else ''Cannot cancel a completed booking''), st)) \<and>
      (readFault e = None \<and> isAdminUser u \<longrightarrow>
         completeBooking e u i st =
           (replyFalse 400 (if status b = Completed then ''Booking is already marked as completed''
                            else ''Cannot complete a cancelled booking''), st)))"
proof (intro conjI impI)
  assume "statusOf st i = Some s"
  then show "\<exists>t. statusOf (run st xs) i = Some t \<and> allowed s t" by (rule run_status)
next
  assume h: "find (\<lambda>x. bookingId x = i) (bookings st) = Some b \<and> status b \<noteq> Confirmed"
  then have "statusOf st i = Some (status b)" by (simp add: statusOf_def)
  then obtain t where "statusOf (run st xs) i = Some t" "allowed (status b) t"
    using run_status by blast
  with h show "statusOf (run st xs) i = Some (status b)"
    by (auto dest: allowed_terminal)
next
  assume "find (\<lambda>x. bookingId x = i) (bookings st) = Some b \<and> status b \<noteq> Confirmed"
    and "readFault e = None \<and> (isAdminUser u \<or> userId b = uid u)"
  then show "cancelBooking e u i r st =
           (reply 400 (if status b = Cancelled then ''Booking is already cancelled''
                       else ''Cannot cancel a completed booking''), st)"
    by (intro cancel_terminal) simp_all
next
  assume "find (\<lambda>x. bookingId x = i) (bookings st) = Some b \<and> status b \<noteq> Confirmed"
    and "readFault e = None \<and> isAdminUser u"
  then show "completeBooking e u i st =
           (replyFalse 400 (if status b = Completed then ''Booking is already marked as completed''
                            else ''Cannot complete a cancelled booking''), st)"
    by (intro complete_terminal) simp_all
qed

theorem status_leaves_only_confirmed_witness:
  "statusOf (ex_store ex_product [ex_booking]) ex_bookingId = Some Confirmed \<and>
   statusOf (run (ex_store ex_product [ex_booking])
       [Cancel ex_env ex_owner ex_bookingId None, Complete ex_env ex_admin ex_bookingId])
     ex_bookingId = Some Cancelled \<and>
   allowed Confirmed Cancelled \<and>
   statusOf (run (ex_store ex_product [ex_cancelled, ex_completed])
       [Complete ex_env ex_admin ex_bookingId, Cancel ex_env ex_owner ex_bookingId None,
        Cancel ex_env ex_admin ex_bookingId2 (Some ''late'')]) ex_bookingId = Some Cancelled \<and>
   statusOf (run (ex_store ex_product [ex_cancelled, ex_completed])
       [Complete ex_env ex_admin ex_bookingId, Cancel ex_env ex_owner ex_bookingId None,
        Cancel ex_env ex_admin ex_bookingId2 (Some ''late'')]) ex_bookingId2 = Some Completed \<and>
   cancelBooking ex_env ex_admin ex_bookingId None (ex_store ex_product [ex_cancelled, ex_completed]) =
     (reply 400 ''Booking is already cancelled'', ex_store ex_product [ex_cancelled, ex_completed]) \<and>
   completeBooking ex_env ex_admin ex_bookingId (ex_store ex_product [ex_cancelled, ex_completed]) =
     (replyFalse 400 ''Cannot complete a cancelled booking'',
      ex_store ex_product [ex_cancelled, ex_completed]) \<and>
   cancelBooking ex_env ex_admin ex_bookingId2 None (ex_store ex_product [ex_cancelled, ex_completed]) =
     (reply 400 ''Cannot cancel a completed booking'',
      ex_store ex_product [ex_cancelled, ex_completed]) \<and>
   completeBooking ex_env ex_admin ex_bookingId2 (ex_store ex_product [ex_cancelled, ex_completed]) =
     (replyFalse 400 ''Booking is already marked as completed'',
      ex_store ex_product [ex_cancelled, ex_completed])"
proof -
  let ?S = "ex_store ex_product [ex_cancelled, ex_completed]"
  let ?xs = "[Complete ex_env ex_admin ex_bookingId, Cancel ex_env ex_owner ex_bookingId None,
              Cancel ex_env ex_admin ex_bookingId2 (Some ''late'')]"
  have f1: "find (\<lambda>x. bookingId x = ex_bookingId) (bookings ?S) = Some ex_cancelled"
    and f2: "find (\<lambda>x. bookingId x = ex_bookingId2) (bookings ?S) = Some ex_completed"
    by (simp_all add: ex_data)
  have s1: "status ex_cancelled = Cancelled" and s2: "status ex_completed = Completed"
    by (simp_all add: ex_data)
  have a: "readFault ex_env = None" "isAdminUser ex_admin"
    by (simp_all add: ex_data isAdminUser_def)
  have n: "status ex_cancelled \<noteq> Confirmed" "status ex_completed \<noteq> Confirmed"
    by (simp_all add: ex_data)
  note t1 = status_leaves_only_confirmed
         [where st = ?S and i = "ex_bookingId" and b = ex_cancelled and xs = ?xs and e = ex_env
            and u = ex_admin and r = None and s = Cancelled]
  note t2 = status_leaves_only_confirmed
         [where st = ?S and i = "ex_bookingId2" and b = ex_completed and xs = ?xs and e = ex_env
            and u = ex_admin and r = None and s = Completed]
  from t1 f1 n(1) have c1: "statusOf (run ?S ?xs) ex_bookingId = Some (status ex_cancelled)"
    by blast
  from t2 f2 n(2) have c2: "statusOf (run ?S ?xs) ex_bookingId2 = Some (status ex_completed)"
    by blast
  from t1 f1 n(1) a have c3: "cancelBooking ex_env ex_admin ex_bookingId None ?S =
      (reply 400 (if status ex_cancelled = Cancelled then ''Booking is already cancelled''
                  else ''Cannot cancel a completed booking''), ?S)"
    by blast
  from t1 f1 n(1) a have c4: "completeBooking ex_env ex_admin ex_bookingId ?S =
      (replyFalse 400 (if status ex_cancelled = Completed
                       then ''Booking is already marked as completed''
                       else ''Cannot complete a cancelled booking''), ?S)"
    by blast
  from t2 f2 n(2) a have c5: "cancelBooking ex_env ex_admin ex_bookingId2 None ?S =
      (reply 400 (if status ex_completed = Cancelled then ''Booking is already cancelled''
                  else ''Cannot cancel a completed booking''), ?S)"
    by blast
  from t2 f2 n(2) a have c6: "completeBooking ex_env ex_admin ex_bookingId2 ?S =
      (replyFalse 400 (if status ex_completed = Completed
                       then ''Booking is already marked as completed''
                       else ''Cannot complete a cancelled booking''), ?S)"
    by blast
  have s0: "statusOf (ex_store ex_product [ex_booking]) ex_bookingId = Some Confirmed"
    by (simp add: statusOf_def ex_data)
  have r0: "statusOf (run (ex_store ex_product [ex_booking])
       [Cancel ex_env ex_owner ex_bookingId None, Complete ex_env ex_admin ex_bookingId])
     ex_bookingId = Some Cancelled"
    by (simp add: statusOf_def ex_data handler_eval)
  from status_leaves_only_confirmed
         [where st = "ex_store ex_product [ex_booking]" and i = ex_bookingId
            and s = Confirmed
            and xs = "[Cancel ex_env ex_owner ex_bookingId None,
                       Complete ex_env ex_admin ex_bookingId]"] s0 r0
  have c0: "allowed Confirmed Cancelled" by auto
  from s0 r0 c0 c1 c2 c3 c4 c5 c6 show ?thesis
    by (simp only: s1 s2 booking_status.distinct if_True if_False simp_thms)
qed

section \<open>Timestamps and status\<close>

lemma stamps_replaceDoc:
  "list_all stampsAgree bs \<Longrightarrow> stampsAgree b \<Longrightarrow> list_all stampsAgree (replaceDoc b bs)"
  using set_replaceDoc[of b bs] by (auto simp: list_all_iff)

lemma apply_op_stamps:
  assumes "list_all stampsAgree (bookings st)"
  shows "list_all stampsAgree (bookings (apply_op st x))"
proof (cases x)
  case (Create e u body)
  show ?thesis
  proof (cases rule: create_effect[of e u body st])
    case same
    with Create assms show ?thesis by simp
  next
    case (added b)
    with Create assms show ?thesis by (simp add: stampsAgree_def)
  qed
next
  case (Cancel e u j r)
  show ?thesis
  proof (cases rule: cancel_effect[of e u j r st])
    case same
    with Cancel assms show ?thesis by simp
  next
    case (moved b b')
    from moved(1) assms have "stampsAgree b" by (auto dest: find_in_set simp: list_all_iff)
    with moved have "stampsAgree b'" by (simp add: stampsAgree_def)
    with moved(8) Cancel assms show ?thesis by (simp add: stamps_replaceDoc)
  qed
next
  case (Complete e u j)
  show ?thesis
  proof (cases rule: complete_effect[of e u j st])
    case same
    with Complete assms show ?thesis by simp
  next
    case (moved b b')
    from moved(1) assms have "stampsAgree b" by (auto dest: find_in_set simp: list_all_iff)
    with moved have "stampsAgree b'" by (simp add: stampsAgree_def)
    with moved(8) Complete assms show ?thesis by (simp add: stamps_replaceDoc)
  qed
next
  case (GetProduct e j)
  with assms show ?thesis by (simp add: getProduct_bookings)
next
  case (DeleteProduct e j)
  with assms show ?thesis by (simp add: deleteProduct_bookings)
qed

lemma run_stamps:
  "list_all stampsAgree (bookings st) \<Longrightarrow> list_all stampsAgree (bookings (run st xs))"
  by (induction xs arbitrary: st) (simp_all add: apply_op_stamps)

text \<open>
  Claim C5. In every store reached from an empty booking collection by a sequence of
  requests, each booking has \<open>cancelledAt\<close> set exactly when its status is
  \<open>Cancelled\<close> and \<open>completedAt\<close> set exactly when its status is \<open>Completed\<close>;
  and every single request (create, cancel, complete, and the product requests)
  preserves this.
\<close>

theorem stamps_agree_with_status:
  "(bookings st0 = [] \<longrightarrow> list_all stampsAgree (bookings (run st0 xs))) \<and>
   (list_all stampsAgree (bookings st) \<longrightarrow> list_all stampsAgree (bookings (apply_op st x)))"
  by (simp add: run_stamps apply_op_stamps)


theorem stamps_agree_with_status_witness:
  "bookings (ex_store ex_product []) = [] \<and>
   map status (bookings (run (ex_store ex_product [])
      [Create ex_env ex_owner ex_body, Cancel ex_env ex_owner ex_freshId None])) = [Cancelled] \<and>
   list_all stampsAgree (bookings (run (ex_store ex_product [])
      [Create ex_env ex_owner ex_body, Cancel ex_env ex_owner ex_freshId None])) \<and>
   list_all stampsAgree (bookings (ex_store ex_product [ex_booking])) \<and>
   map completedAt (bookings (apply_op (ex_store ex_product [ex_booking])
      (Complete ex_env ex_admin ex_bookingId))) = [Some 1704067200000] \<and>
   list_all stampsAgree (bookings (apply_op (ex_store ex_product [ex_booking])
      (Complete ex_env ex_admin ex_bookingId)))"
proof -
  have e: "bookings (ex_store ex_product []) = []"
    by (simp add: ex_store_def)
  have i: "list_all stampsAgree (bookings (ex_store ex_product [ex_booking]))"
    by (simp add: ex_data stampsAgree_def)
  have r: "map status (bookings (run (ex_store ex_product [])
      [Create ex_env ex_owner ex_body, Cancel ex_env ex_owner ex_freshId None])) = [Cancelled]"
    by (simp add: ex_data handler_eval coupon_eval)
  have c: "map completedAt (bookings (apply_op (ex_store ex_product [ex_booking])
      (Complete ex_env ex_admin ex_bookingId))) = [Some 1704067200000]"
    by (simp add: ex_data handler_eval)
  from stamps_agree_with_status
         [where ?st0.0 = "ex_store ex_product []"
            and xs = "[Create ex_env ex_owner ex_body, Cancel ex_env ex_owner ex_freshId None]"
            and st = "ex_store ex_product [ex_booking]"
            and x = "Complete ex_env ex_admin ex_bookingId"]
       e i r c
  show ?thesis by blast
qed


section \<open>Creating a booking\<close>

lemma createBooking_success:
  assumes "\<not> requiredMissing body" "readFault e = None"
    "products st (strOf (req_productId body)) = Some p" "availability p = Available"
    "validationErrors (documentOf u body) = []" "writeFault e = None"
    "\<not> list_ex (\<lambda>x. bookingId x = freshId e) (bookings st)"
    "\<not> list_ex (\<lambda>x. couponCode x = toUpperCase (generateCouponCode (now e) (randomDigits e)))
         (bookings st)"
  shows "createBooking e u body st =
           (\<lparr>statusCode = 201, success = Some True,
             message = Some ''Booking created successfully'', error = None,
             payload = Some (newDocument e (documentOf u body))\<rparr>,
            st\<lparr>bookings := bookings st @ [newDocument e (documentOf u body)]\<rparr>)"
  using assms
  by (simp add: createBooking_def Product_findById_def Booking_create_def newDocument_fields Let_def)

lemma createBooking_duplicate_coupon:
  assumes "\<not> requiredMissing body" "readFault e = None"
    "products st (strOf (req_productId body)) = Some p" "availability p = Available"
    "validationErrors (documentOf u body) = []" "writeFault e = None"
    "\<not> list_ex (\<lambda>x. bookingId x = freshId e) (bookings st)"
    "list_ex (\<lambda>x. couponCode x = toUpperCase (generateCouponCode (now e) (randomDigits e)))
       (bookings st)"
  shows "createBooking e u body st =
           (caught None ''Failed to create booking'' (DuplicateKeyError ''couponCode''), st)"
  using assms
  by (simp add: createBooking_def Product_findById_def Booking_create_def newDocument_fields Let_def)

text \<open>
  Claim C2. When the product a creation request names exists and its availability is
  not \<open>Available\<close>, no booking is created: the store is unchanged and the response
  is not the 201 success and carries no booking. When the request reaches the
  availability test (the required fields are present and the product lookup does not
  throw), the response is 400 "Product is not available for booking", the handler's
  conflict error.
\<close>

theorem unavailable_product_rejected:
  assumes "products st pid = Some p" "availability p \<noteq> Available"
    "req_productId body = Some pid"
  shows "snd (createBooking e u body st) = st \<and>
         payload (fst (createBooking e u body st)) = None \<and>
         statusCode (fst (createBooking e u body st)) \<noteq> 201 \<and>
         (\<not> requiredMissing body \<and> readFault e = None \<longrightarrow>
            createBooking e u body st =
              (reply 400 ''Product is not available for booking'', st))"
proof -
  from assms(3) have pid: "strOf (req_productId body) = pid" by (simp add: strOf_def)
  from createBooking_cases[of e u body st] assms(1,2) pid
  obtain r where "createBooking e u body st = (r, st)" "payload r = None" "statusCode r \<noteq> 201"
    by auto
  moreover have "createBooking e u body st =
              (reply 400 ''Product is not available for booking'', st)"
    if "\<not> requiredMissing body" "readFault e = None"
    using that assms(1,2) pid by (simp add: createBooking_def Product_findById_def)
  ultimately show ?thesis by simp
qed

theorem unavailable_product_rejected_witness:
  "createBooking ex_env ex_owner ex_body
     (ex_store (ex_product\<lparr>availability := OutOfStock\<rparr>) [ex_booking]) =
     (reply 400 ''Product is not available for booking'',
      ex_store (ex_product\<lparr>availability := OutOfStock\<rparr>) [ex_booking])"
proof -
  let ?p = "ex_product\<lparr>availability := OutOfStock\<rparr>"
  have h: "products (ex_store ?p [ex_booking]) ex_productId = Some ?p"
    "availability ?p \<noteq> Available" "req_productId ex_body = Some ex_productId"
    "\<not> requiredMissing ex_body" "readFault ex_env = None"
    by (simp_all add: ex_data requiredMissing_def falsyStr_def falsyNum_def)
  from unavailable_product_rejected[OF h(1,2,3), of ex_env ex_owner] h(4,5)
  show ?thesis by blast
qed

text \<open>
  Claim C3, as the code has it. The \<open>productName\<close>, \<open>productImage\<close> and
  \<open>productCategory\<close> of a created booking are the values the request body supplied
  under those names. They are not read from the product record.
\<close>

theorem created_booking_product_fields_from_request:
  assumes "createBooking e u body st = (r, st')" "payload r = Some b"
  shows "req_productName body = Some (productName b) \<and>
         req_productImage body = Some (productImage b) \<and>
         req_productCategory body = Some (productCategory b)"
proof -
  from createBooking_cases[of e u body st] assms
  have b: "b = newDocument e (documentOf u body)"
    and v: "validationErrors (documentOf u body) = []"
    by auto
  from validation_product_fields[OF v]
  have "\<not> falsyStr (req_productName body)" "\<not> falsyStr (req_productImage body)"
    "\<not> falsyStr (req_productCategory body)"
    by (simp_all add: documentOf_def)
  then show ?thesis
    by (auto simp: b newDocument_fields falsyStr_def strOf_def)
qed

theorem created_booking_product_fields_from_request_witness:
  "payload (fst (createBooking ex_env ex_owner ex_body (ex_store ex_product []))) =
     Some (newDocument ex_env (documentOf ex_owner ex_body)) \<and>
   req_productName ex_body = Some (productName (newDocument ex_env (documentOf ex_owner ex_body))) \<and>
   req_productImage ex_body = Some (productImage (newDocument ex_env (documentOf ex_owner ex_body))) \<and>
   req_productCategory ex_body =
     Some (productCategory (newDocument ex_env (documentOf ex_owner ex_body)))"
proof -
  let ?X = "createBooking ex_env ex_owner ex_body (ex_store ex_product [])"
  have x: "?X = (fst ?X, snd ?X)" by simp
  have p: "payload (fst ?X) = Some (newDocument ex_env (documentOf ex_owner ex_body))"
    by (simp add: ex_data handler_eval coupon_eval)
  from created_booking_product_fields_from_request[OF x p] p show ?thesis by blast
qed

text \<open>
  The claim as stated fails: for the product named \<open>Laptop\<close> in category
  \<open>Laptops\<close>, a request that says \<open>Phone\<close> and \<open>Audio\<close> succeeds and the
  booking records \<open>Phone\<close> and \<open>Audio\<close>.
\<close>

theorem product_snapshot_counterexample:
  "statusCode (fst (createBooking ex_env ex_owner ex_body (ex_store ex_product []))) = 201 \<and>
   map_option productName
     (payload (fst (createBooking ex_env ex_owner ex_body (ex_store ex_product [])))) =
     Some ''Phone'' \<and>
   map_option name (products (ex_store ex_product []) ex_productId) = Some ''Laptop'' \<and>
   map_option productCategory
     (payload (fst (createBooking ex_env ex_owner ex_body (ex_store ex_product [])))) =
     Some ''Audio'' \<and>
   map_option category (products (ex_store ex_product []) ex_productId) = Some ''Laptops''"
  by (simp add: ex_data handler_eval coupon_eval)

text \<open>
  Claim C6, as the code has it. \<open>Booking.create\<close> is called once, with the one
  coupon code the generator produced. When that code is already in the collection,
  the insert is refused and the handler answers 500 "Failed to create booking" with
  the duplicate-key error; it makes no second attempt and creates no booking.
\<close>

theorem coupon_collision_not_retried:
  assumes "\<not> requiredMissing body" "readFault e = None"
    "products st (strOf (req_productId body)) = Some p" "availability p = Available"
    "validationErrors (documentOf u body) = []" "writeFault e = None"
    "\<not> list_ex (\<lambda>x. bookingId x = freshId e) (bookings st)"
    "list_ex (\<lambda>x. couponCode x = toUpperCase (generateCouponCode (now e) (randomDigits e)))
       (bookings st)"
  shows "createBooking e u body st =
           (\<lparr>statusCode = 500, success = None, message = Some ''Failed to create booking'',
             error = Some (DuplicateKeyError ''couponCode''), payload = None\<rparr>, st)"
  using createBooking_duplicate_coupon[OF assms] by (simp add: caught_def)

theorem coupon_collision_not_retried_witness:
  "createBooking ex_env ex_owner ex_body (ex_store ex_product [ex_booking]) =
     (\<lparr>statusCode = 500, success = None, message = Some ''Failed to create booking'',
       error = Some (DuplicateKeyError ''couponCode''), payload = None\<rparr>,
      ex_store ex_product [ex_booking])"
proof -
  have h: "\<not> requiredMissing ex_body" "readFault ex_env = None"
    "products (ex_store ex_product [ex_booking]) (strOf (req_productId ex_body)) = Some ex_product"
    "availability ex_product = Available"
    "validationErrors (documentOf ex_owner ex_body) = []" "writeFault ex_env = None"
    "\<not> list_ex (\<lambda>x. bookingId x = freshId ex_env) (bookings (ex_store ex_product [ex_booking]))"
    by (simp_all add: ex_data handler_eval)
  have c: "list_ex (\<lambda>x. couponCode x =
               toUpperCase (generateCouponCode (now ex_env) (randomDigits ex_env)))
             (bookings (ex_store ex_product [ex_booking]))"
    by (simp add: ex_data coupon_eval)
  from coupon_collision_not_retried[OF h c] show ?thesis .
qed

text \<open>
  The claim as stated fails: with a booking already holding the code that clock
  reading 1704067200000 and random number \<open>0.i0z79c3um5h\<close> (base 36) generate, creation ends in the
  500 response carrying the duplicate-key error.
\<close>

theorem coupon_retry_counterexample:
  "map couponCode (bookings (ex_store ex_product [ex_booking])) =
     [toUpperCase (generateCouponCode (now ex_env) (randomDigits ex_env))] \<and>
   fst (createBooking ex_env ex_owner ex_body (ex_store ex_product [ex_booking])) =
     \<lparr>statusCode = 500, success = None, message = Some ''Failed to create booking'',
      error = Some (DuplicateKeyError ''couponCode''), payload = None\<rparr> \<and>
   snd (createBooking ex_env ex_owner ex_body (ex_store ex_product [ex_booking])) =
     ex_store ex_product [ex_booking]"
  by (simp add: ex_data handler_eval coupon_eval)


section \<open>Authorization\<close>

lemma cancel_not_owner:
  assumes "role u \<noteq> ''admin''" "find (\<lambda>x. bookingId x = i) (bookings st) = Some b"
    "userId b \<noteq> uid u"
  shows "readFault e = None \<Longrightarrow>
           cancelBooking e u i r st = (reply 403 ''Not authorized to cancel this booking'', st)"
    and "snd (cancelBooking e u i r st) = st"
  using assms
  by (auto simp: cancelBooking_def Booking_findById_def isAdminUser_def split: option.splits)

text \<open>
  Claim C4. For a requester who is not an admin and a booking owned by someone else:
  the single-booking read and the read by coupon code answer 403 "Not authorized to
  view this booking" (given that the lookup does not throw and the owner's user
  document exists, which the handler dereferences first); cancel answers 403 "Not
  authorized to cancel this booking" when the lookup does not throw, and leaves the
  store unchanged in every case; complete answers 403 "Not authorized. Admin access
  required." before it looks anything up, for every non-admin, and leaves the store
  unchanged. The two read handlers return a response only; they have no way to
  change the store.
\<close>

theorem non_owner_rejected:
  assumes "role u \<noteq> ''admin''" "find (\<lambda>x. bookingId x = i) (bookings st) = Some b"
    "userId b \<noteq> uid u"
  shows "(readFault e = None \<and> users st (userId b) \<noteq> None \<longrightarrow>
            getBooking e u i st = reply 403 ''Not authorized to view this booking'') \<and>
         (readFault e = None \<longrightarrow>
            cancelBooking e u i r st =
              (reply 403 ''Not authorized to cancel this booking'', st)) \<and>
         snd (cancelBooking e u i r st) = st \<and>
         completeBooking e u j st =
           (replyFalse 403 ''Not authorized. Admin access required.'', st) \<and>
         (readFault e = None \<and> users st (userId b) \<noteq> None \<and>
          find (\<lambda>x. couponCode x = toUpperCase c) (bookings st) = Some b \<longrightarrow>
            getBookingByCoupon e u c st = replyFalse 403 ''Not authorized to view this booking'')"
proof (intro conjI impI)
  assume "readFault e = None \<and> users st (userId b) \<noteq> None"
  with assms show "getBooking e u i st = reply 403 ''Not authorized to view this booking''"
    by (auto simp: getBooking_def Booking_findById_def populate_def isAdminUser_def)
next
  assume "readFault e = None"
  then show "cancelBooking e u i r st =
      (reply 403 ''Not authorized to cancel this booking'', st)"
    by (rule cancel_not_owner(1)[OF assms])
next
  show "snd (cancelBooking e u i r st) = st"
    by (rule cancel_not_owner(2)[OF assms])
next
  from assms(1) show "completeBooking e u j st =
      (replyFalse 403 ''Not authorized. Admin access required.'', st)"
    by (simp add: completeBooking_def)
next
  assume "readFault e = None \<and> users st (userId b) \<noteq> None \<and>
          find (\<lambda>x. couponCode x = toUpperCase c) (bookings st) = Some b"
  with assms show "getBookingByCoupon e u c st =
      replyFalse 403 ''Not authorized to view this booking''"
    by (auto simp: getBookingByCoupon_def Booking_findOne_couponCode_def populate_def
        isAdminUser_def)
qed

theorem non_owner_rejected_witness:
  "getBooking ex_env ex_other ex_bookingId (ex_store ex_product [ex_booking]) =
     reply 403 ''Not authorized to view this booking'' \<and>
   cancelBooking ex_env ex_other ex_bookingId (Some ''mine now'') (ex_store ex_product [ex_booking]) =
     (reply 403 ''Not authorized to cancel this booking'', ex_store ex_product [ex_booking]) \<and>
   completeBooking ex_env ex_other ex_bookingId (ex_store ex_product [ex_booking]) =
     (replyFalse 403 ''Not authorized. Admin access required.'',
      ex_store ex_product [ex_booking]) \<and>
   getBookingByCoupon ex_env ex_other ''git-lqu5m2o0-i0z7'' (ex_store ex_product [ex_booking]) =
     replyFalse 403 ''Not authorized to view this booking''"
proof -
  have h: "role ex_other \<noteq> ''admin''"
    "find (\<lambda>x. bookingId x = ex_bookingId) (bookings (ex_store ex_product [ex_booking])) =
       Some ex_booking"
    "userId ex_booking \<noteq> uid ex_other"
    by (simp_all add: ex_data)
  have g: "readFault ex_env = None"
    "users (ex_store ex_product [ex_booking]) (userId ex_booking) \<noteq> None"
    by (simp_all add: ex_data)
  have c: "find (\<lambda>x. couponCode x = toUpperCase ''git-lqu5m2o0-i0z7'')
             (bookings (ex_store ex_product [ex_booking])) = Some ex_booking"
    by (simp add: ex_data toUpperCase_def char_eval)
  from non_owner_rejected
         [OF h, where e = ex_env and r = "Some ''mine now''" and j = "ex_bookingId"
            and c = "''git-lqu5m2o0-i0z7''"] g c
  show ?thesis by blast
qed


section \<open>Lookup by coupon code\<close>

lemma apply_op_coupons:
  assumes "list_all (\<lambda>b. toUpperCase (couponCode b) = couponCode b) (bookings st)"
  shows "list_all (\<lambda>b. toUpperCase (couponCode b) = couponCode b) (bookings (apply_op st x))"
proof (cases x)
  case (Create e u body)
  show ?thesis
  proof (cases rule: create_effect[of e u body st])
    case same
    with Create assms show ?thesis by simp
  next
    case (added b)
    with Create assms show ?thesis by (simp add: toUpperCase_idem)
  qed
next
  case (Cancel e u j r)
  show ?thesis
  proof (cases rule: cancel_effect[of e u j r st])
    case same
    with Cancel assms show ?thesis by simp
  next
    case (moved b b')
    from moved(1) assms have "toUpperCase (couponCode b) = couponCode b"
      by (auto dest: find_in_set simp: list_all_iff)
    with moved(7) have "toUpperCase (couponCode b') = couponCode b'" by simp
    with moved(8) Cancel assms set_replaceDoc[of b' "bookings st"] show ?thesis
      by (auto simp: list_all_iff)
  qed
next
  case (Complete e u j)
  show ?thesis
  proof (cases rule: complete_effect[of e u j st])
    case same
    with Complete assms show ?thesis by simp
  next
    case (moved b b')
    from moved(1) assms have "toUpperCase (couponCode b) = couponCode b"
      by (auto dest: find_in_set simp: list_all_iff)
    with moved(7) have "toUpperCase (couponCode b') = couponCode b'" by simp
    with moved(8) Complete assms set_replaceDoc[of b' "bookings st"] show ?thesis
      by (auto simp: list_all_iff)
  qed
next
  case (GetProduct e j)
  with assms show ?thesis by (simp add: getProduct_bookings)
next
  case (DeleteProduct e j)
  with assms show ?thesis by (simp add: deleteProduct_bookings)
qed

lemma run_coupons:
  "list_all (\<lambda>b. toUpperCase (couponCode b) = couponCode b) (bookings st) \<Longrightarrow>
   list_all (\<lambda>b. toUpperCase (couponCode b) = couponCode b) (bookings (run st xs))"
  by (induction xs arbitrary: st) (simp_all add: apply_op_coupons)

lemma map_coupon_replaceDoc:
  "find (\<lambda>x. bookingId x = bookingId b') bs = Some b \<Longrightarrow> couponCode b' = couponCode b \<Longrightarrow>
   map couponCode (replaceDoc b' bs) = map couponCode bs"
  by (induction bs) (auto split: if_splits)

lemma create_fresh_coupon:
  "bookings (snd (createBooking e u body st)) = bookings st \<or>
   (\<exists>b. couponCode b \<notin> couponCode ` set (bookings st) \<and>
      bookings (snd (createBooking e u body st)) = bookings st @ [b])"
proof (cases "\<exists>r. createBooking e u body st = (r, st)")
  case True
  then show ?thesis by auto
next
  case False
  with createBooking_cases[of e u body st]
  have ok: "createBooking e u body st =
        (\<lparr>statusCode = 201, success = Some True,
          message = Some ''Booking created successfully'',
          error = None, payload = Some (newDocument e (documentOf u body))\<rparr>,
         st\<lparr>bookings := bookings st @ [newDocument e (documentOf u body)]\<rparr>)"
    by auto
  have "\<exists>r. Booking_create e (documentOf u body) st = Inr r"
  proof (rule ccontr)
    assume "\<not> (\<exists>r. Booking_create e (documentOf u body) st = Inr r)"
    then obtain err where "Booking_create e (documentOf u body) st = Inl err"
      by (cases "Booking_create e (documentOf u body) st") auto
    then have "\<exists>r. createBooking e u body st = (r, st)"
      by (auto simp: createBooking_def split: sum.splits option.splits)
    with False show False by simp
  qed
  then obtain b st' where "Booking_create e (documentOf u body) st = Inr (b, st')"
    by auto
  from Booking_create_result[OF this]
  have "couponCode (newDocument e (documentOf u body)) \<notin> couponCode ` set (bookings st)"
    by (auto simp: list_ex_iff)
  with ok show ?thesis by auto
qed

lemma apply_op_distinct_coupons:
  assumes "distinct (map couponCode (bookings st))"
  shows "distinct (map couponCode (bookings (apply_op st x)))"
proof (cases x)
  case (Create e u body)
  with create_fresh_coupon[of e u body st] assms show ?thesis by auto
next
  case (Cancel e u j r)
  show ?thesis
  proof (cases rule: cancel_effect[of e u j r st])
    case same
    with Cancel assms show ?thesis by simp
  next
    case (moved b b')
    from moved(1) have "bookingId b = j" by (rule find_bookingId)
    with moved have "map couponCode (replaceDoc b' (bookings st)) = map couponCode (bookings st)"
      by (intro map_coupon_replaceDoc[of b' _ b]) simp_all
    with moved(8) Cancel assms show ?thesis by simp
  qed
next
  case (Complete e u j)
  show ?thesis
  proof (cases rule: complete_effect[of e u j st])
    case same
    with Complete assms show ?thesis by simp
  next
    case (moved b b')
    from moved(1) have "bookingId b = j" by (rule find_bookingId)
    with moved have "map couponCode (replaceDoc b' (bookings st)) = map couponCode (bookings st)"
      by (intro map_coupon_replaceDoc[of b' _ b]) simp_all
    with moved(8) Complete assms show ?thesis by simp
  qed
next
  case (GetProduct e j)
  with assms show ?thesis by (simp add: getProduct_bookings)
next
  case (DeleteProduct e j)
  with assms show ?thesis by (simp add: deleteProduct_bookings)
qed

lemma run_distinct_coupons:
  "distinct (map couponCode (bookings st)) \<Longrightarrow>
   distinct (map couponCode (bookings (run st xs)))"
  by (induction xs arbitrary: st) (simp_all add: apply_op_distinct_coupons)

lemma find_distinct_coupon:
  "distinct (map couponCode bs) \<Longrightarrow> b \<in> set bs \<Longrightarrow>
   find (\<lambda>x. couponCode x = couponCode b) bs = Some b"
  by (induction bs) (auto simp: image_iff)

lemma codePoints_eq: "(codePoints s = codePoints t) = (s = t)"
  by (simp add: codePoints_def inj_of_char)

lemma lower_codes: "map of_char lowerLetters = [97..<123 :: nat]"
  by (simp add: lowerLetters_def)

lemma upper_codes: "map of_char upperLetters = [65..<91 :: nat]"
  by (simp add: upperLetters_def)

lemma lower_to_upper_code:
  "\<forall>l\<in>set lowerLetters. (of_char (upperChar l) :: nat) = of_char l - 32"
  by (simp add: char_eval)

lemma lower_code_set: "of_char ` set lowerLetters = {97..<123 :: nat}"
proof -
  have "set (map of_char lowerLetters) = set [97..<123 :: nat]"
    by (simp only: lower_codes)
  then show ?thesis by (simp only: set_map set_upt)
qed

lemma lowerLetters_iff:
  "(c \<in> set lowerLetters) = (97 \<le> (of_char c :: nat) \<and> (of_char c :: nat) \<le> 122)"
proof
  assume "c \<in> set lowerLetters"
  then have "(of_char c :: nat) \<in> of_char ` set lowerLetters" by (rule imageI)
  then have "(of_char c :: nat) \<in> {97..<123}" by (simp only: lower_code_set)
  then show "97 \<le> (of_char c :: nat) \<and> (of_char c :: nat) \<le> 122"
    by (simp only: atLeastLessThan_iff) arith
next
  assume "97 \<le> (of_char c :: nat) \<and> (of_char c :: nat) \<le> 122"
  then have "(of_char c :: nat) \<in> {97..<123}"
    by (simp only: atLeastLessThan_iff) arith
  then have "(of_char c :: nat) \<in> of_char ` set lowerLetters"
    by (simp only: lower_code_set)
  then obtain l where "l \<in> set lowerLetters" "(of_char c :: nat) = of_char l" by blast
  then show "c \<in> set lowerLetters" by simp
qed

lemma upperChar_not_lower: "c \<notin> set lowerLetters \<Longrightarrow> upperChar c = c"
proof -
  assume "c \<notin> set lowerLetters"
  then have "map_of (zip lowerLetters upperLetters) c = None"
    by (simp add: map_of_eq_None_iff lowerLetters_def upperLetters_def)
  then show ?thesis by (simp add: upperChar_def)
qed

lemma upperPoint_letter: "97 \<le> p \<and> p \<le> 122 \<Longrightarrow> upperPoint tbl p = [p - 32]"
  unfolding upperPoint_def by (rule if_P)

lemma upperPoint_other:
  "\<not> (97 \<le> p \<and> p \<le> 122) \<Longrightarrow> p < 128 \<Longrightarrow> upperPoint tbl p = [p]"
  unfolding upperPoint_def by (simp only: if_False if_True)

lemma upperPoint_table: "128 \<le> p \<Longrightarrow> upperPoint tbl p = tbl p"
  by (simp add: upperPoint_def)

lemma upperPoint_ascii:
  assumes "(of_char c :: nat) < 128"
  shows "upperPoint tbl (of_char c) = [of_char (upperChar c)]"
proof (cases "c \<in> set lowerLetters")
  case True
  then have "97 \<le> (of_char c :: nat) \<and> (of_char c :: nat) \<le> 122"
    by (simp add: lowerLetters_iff)
  moreover from True have "(of_char (upperChar c) :: nat) = of_char c - 32"
    using lower_to_upper_code by blast
  ultimately show ?thesis by (simp add: upperPoint_letter)
next
  case False
  then have "\<not> (97 \<le> (of_char c :: nat) \<and> (of_char c :: nat) \<le> 122)"
    by (simp only: lowerLetters_iff not_False_eq_True)
  from upperPoint_other[OF this assms] False show ?thesis
    by (simp add: upperChar_not_lower)
qed

lemma toUpperCaseU_ascii:
  "isAscii s \<Longrightarrow> toUpperCaseU tbl (codePoints s) = codePoints (toUpperCase s)"
  by (induction s)
     (simp_all add: isAscii_def toUpperCaseU_def codePoints_def toUpperCase_def upperPoint_ascii)

lemma toUpperCaseU_append:
  "toUpperCaseU tbl (s @ t) = toUpperCaseU tbl s @ toUpperCaseU tbl t"
  by (simp add: toUpperCaseU_def)

lemma upperPoint_stable:
  assumes "\<And>p. 128 \<le> p \<Longrightarrow> toUpperCaseU tbl (tbl p) = tbl p"
  shows "toUpperCaseU tbl (upperPoint tbl p) = upperPoint tbl p"
proof -
  consider (letter) "97 \<le> p \<and> p \<le> 122" | (other) "\<not> (97 \<le> p \<and> p \<le> 122)" "p < 128"
    | (table) "128 \<le> p" by linarith
  then show ?thesis
  proof cases
    case letter
    then have "\<not> (97 \<le> p - 32 \<and> p - 32 \<le> 122)" "p - 32 < 128" by arith+
    then have "upperPoint tbl (p - 32) = [p - 32]" by (rule upperPoint_other)
    with letter show ?thesis by (simp add: upperPoint_letter toUpperCaseU_def)
  next
    case other
    then have "upperPoint tbl p = [p]" by (rule upperPoint_other)
    then show ?thesis by (simp add: toUpperCaseU_def)
  next
    case table
    with assms[of p] show ?thesis by (simp add: upperPoint_table)
  qed
qed

lemma toUpperCaseU_idem:
  assumes "\<And>p. 128 \<le> p \<Longrightarrow> toUpperCaseU tbl (tbl p) = tbl p"
  shows "toUpperCaseU tbl (toUpperCaseU tbl s) = toUpperCaseU tbl s"
proof (induction s)
  case Nil
  show ?case by (simp add: toUpperCaseU_def)
next
  case (Cons p s)
  have "toUpperCaseU tbl (p # s) = upperPoint tbl p @ toUpperCaseU tbl s"
    by (simp add: toUpperCaseU_def)
  with Cons upperPoint_stable[OF assms, of p] show ?case
    by (simp add: toUpperCaseU_append)
qed

lemma lowerChar_ascii: "(of_char c :: nat) < 128 \<Longrightarrow> (of_char (lowerChar c) :: nat) < 128"
proof (cases "map_of (zip upperLetters lowerLetters) c")
  case None
  assume "(of_char c :: nat) < 128"
  with None show ?thesis by (simp add: lowerChar_def)
next
  case (Some l)
  then have "l \<in> set lowerLetters" by (auto dest!: map_of_SomeD set_zip_rightD)
  then have "(of_char l :: nat) \<le> 122" by (simp add: lowerLetters_iff)
  with Some show ?thesis by (simp add: lowerChar_def)
qed

lemma isAscii_toLowerCase: "isAscii s \<Longrightarrow> isAscii (toLowerCase s)"
  by (induction s) (simp_all add: isAscii_def toLowerCase_def lowerChar_ascii)

lemma upperChar_ascii: "(of_char c :: nat) < 128 \<Longrightarrow> (of_char (upperChar c) :: nat) < 128"
proof (cases "c \<in> set lowerLetters")
  case True
  then have "(of_char (upperChar c) :: nat) = of_char c - 32"
    using lower_to_upper_code by blast
  moreover assume "(of_char c :: nat) < 128"
  ultimately show ?thesis by simp
next
  case False
  assume "(of_char c :: nat) < 128"
  with False show ?thesis by (simp add: upperChar_not_lower)
qed

lemma isAscii_toUpperCase: "isAscii s \<Longrightarrow> isAscii (toUpperCase s)"
  by (induction s) (simp_all add: isAscii_def toUpperCase_def upperChar_ascii)

lemma class_ascii: "\<forall>c\<in>set (upperLetters @ ''0123456789''). (of_char c :: nat) < 128"
  by (simp add: upperLetters_def)

lemma class_char_ascii: "isUpperAlnum c \<Longrightarrow> (of_char c :: nat) < 128"
  using class_ascii unfolding isUpperAlnum_def by blast

lemma isAscii_class: "list_all isUpperAlnum s \<Longrightarrow> isAscii s"
  by (simp add: isAscii_def list_all_iff class_char_ascii)

lemma isAscii_generated:
  assumes "\<forall>d\<in>set rnd. d < 36"
  shows "isAscii (generateCouponCode t rnd)"
proof -
  have "isAscii (toUpperCase (toString36 t))"
    by (rule isAscii_class) (rule toString36_upper)
  moreover have "isAscii (toUpperCase (map digit36 (take 4 rnd)))"
    by (rule isAscii_class) (rule suffix_upper[OF assms])
  ultimately show ?thesis
    by (simp add: generateCouponCode_shape isAscii_def)
qed

lemma lookupU_found:
  assumes "b \<in> set (bookings st)" "distinct (map couponCode (bookings st))"
    "isAscii c" "toUpperCase c = couponCode b" "readFault e = None"
    "users st (userId b) \<noteq> None" "isAdminUser u \<or> userId b = uid u"
  shows "getBookingByCouponU tbl e u (codePoints c) st =
           \<lparr>statusCode = 200, success = Some True, message = None, error = None,
            payload = Some (populate b st)\<rparr>"
proof -
  have "toUpperCaseU tbl (codePoints c) = codePoints (couponCode b)"
    using assms(3,4) by (simp add: toUpperCaseU_ascii)
  moreover have "find (\<lambda>x. couponCode x = couponCode b) (bookings st) = Some b"
    using assms(1,2) by (intro find_distinct_coupon)
  ultimately show ?thesis using assms(5,6,7)
    by (auto simp: getBookingByCouponU_def Booking_findOne_couponCodeU_def codePoints_eq
        populate_def)
qed

lemma findOneU_codePoints:
  "Booking_findOne_couponCodeU f (codePoints c) st = Booking_findOne_couponCode f c st"
  by (cases f)
     (simp_all add: Booking_findOne_couponCodeU_def Booking_findOne_couponCode_def codePoints_eq)

lemma lookupU_ascii:
  "isAscii c \<Longrightarrow> getBookingByCouponU tbl e u (codePoints c) st = getBookingByCoupon e u c st"
  by (simp add: getBookingByCouponU_def getBookingByCoupon_def toUpperCaseU_ascii
      findOneU_codePoints)

lemma lookupU_missing:
  assumes "readFault e = None"
    "\<forall>b\<in>set (bookings st). codePoints (couponCode b) \<noteq> toUpperCaseU tbl s"
  shows "getBookingByCouponU tbl e u s st =
           replyFalse 404 ''Booking not found with this coupon code''"
proof -
  from assms(2) have "find (\<lambda>b. codePoints (couponCode b) = toUpperCaseU tbl s) (bookings st) = None"
    by (simp add: find_None_iff)
  with assms(1) show ?thesis
    by (simp add: getBookingByCouponU_def Booking_findOne_couponCodeU_def)
qed

text \<open>
  Claim C8. The coupon lookup uppercases the supplied code and answers from the
  exact match of the result against the stored codes. For a supplied code \<open>s\<close> of
  any characters (the uppercase table of the engine is a parameter, and the
  uppercase form of a code point is assumed to be its own uppercase form, as it is
  in Unicode):
  \<^item> the answer for \<open>s\<close> is the answer for the uppercase form of \<open>s\<close>;
  \<^item> when no stored code equals the uppercase form of \<open>s\<close>, the answer is 404
    "Booking not found with this coupon code";
  \<^item> when coupon codes are distinct and an ASCII string \<open>c\<close> has the stored code of
    booking \<open>b\<close> as its uppercase form, then \<open>c\<close>, its lowercase form and its
    uppercase form all get the same answer, 200 with booking \<open>b\<close> itself (for the
    owner or an admin, the lookup not throwing, the owner's document present);
  \<^item> on ASCII codes this is the handler \<open>getBookingByCoupon\<close>;
  \<^item> in every store reached from an empty booking collection the stored codes are
    distinct and each is its own uppercase form, and a generated code is ASCII.
\<close>

theorem coupon_lookup_matches_uppercased_code:
  assumes "\<And>p. 128 \<le> p \<Longrightarrow> toUpperCaseU tbl (tbl p) = tbl p"
  shows "getBookingByCouponU tbl e u s st =
           getBookingByCouponU tbl e u (toUpperCaseU tbl s) st \<and>
         (readFault e = None \<and>
          (\<forall>x\<in>set (bookings st). codePoints (couponCode x) \<noteq> toUpperCaseU tbl s) \<longrightarrow>
            getBookingByCouponU tbl e u s st =
              replyFalse 404 ''Booking not found with this coupon code'') \<and>
         (b \<in> set (bookings st) \<and> distinct (map couponCode (bookings st)) \<and>
          isAscii c \<and> toUpperCase c = couponCode b \<and> readFault e = None \<and>
          users st (userId b) \<noteq> None \<and> (isAdminUser u \<or> userId b = uid u) \<longrightarrow>
            getBookingByCouponU tbl e u (codePoints c) st =
              \<lparr>statusCode = 200, success = Some True, message = None, error = None,
               payload = Some (populate b st)\<rparr> \<and>
            getBookingByCouponU tbl e u (codePoints (toLowerCase c)) st =
              \<lparr>statusCode = 200, success = Some True, message = None, error = None,
               payload = Some (populate b st)\<rparr> \<and>
            getBookingByCouponU tbl e u (codePoints (toUpperCase c)) st =
              \<lparr>statusCode = 200, success = Some True, message = None, error = None,
               payload = Some (populate b st)\<rparr>) \<and>
         (isAscii c \<longrightarrow>
            getBookingByCouponU tbl e u (codePoints c) st = getBookingByCoupon e u c st) \<and>
         (bookings st0 = [] \<longrightarrow>
            distinct (map couponCode (bookings (run st0 xs))) \<and>
            list_all (\<lambda>x. toUpperCase (couponCode x) = couponCode x) (bookings (run st0 xs))) \<and>
         ((\<forall>d\<in>set (randomDigits e). d < 36) \<longrightarrow> isAscii (couponCode (newDocument e nd)))"
proof (intro conjI impI)
  show "getBookingByCouponU tbl e u s st = getBookingByCouponU tbl e u (toUpperCaseU tbl s) st"
    by (simp add: getBookingByCouponU_def toUpperCaseU_idem[OF assms])
next
  assume "readFault e = None \<and>
    (\<forall>x\<in>set (bookings st). codePoints (couponCode x) \<noteq> toUpperCaseU tbl s)"
  then show "getBookingByCouponU tbl e u s st =
      replyFalse 404 ''Booking not found with this coupon code''"
    by (intro lookupU_missing) simp_all
next
  assume h: "b \<in> set (bookings st) \<and> distinct (map couponCode (bookings st)) \<and>
          isAscii c \<and> toUpperCase c = couponCode b \<and> readFault e = None \<and>
          users st (userId b) \<noteq> None \<and> (isAdminUser u \<or> userId b = uid u)"
  then show "getBookingByCouponU tbl e u (codePoints c) st =
              \<lparr>statusCode = 200, success = Some True, message = None, error = None,
               payload = Some (populate b st)\<rparr>"
    by (intro lookupU_found) simp_all
  from h have asc: "isAscii c" and up: "toUpperCase c = couponCode b" by simp_all
  from asc have "isAscii (toLowerCase c)" by (rule isAscii_toLowerCase)
  moreover have "toUpperCase (toLowerCase c) = couponCode b"
    unfolding toUpperCase_toLowerCase by (rule up)
  ultimately show "getBookingByCouponU tbl e u (codePoints (toLowerCase c)) st =
              \<lparr>statusCode = 200, success = Some True, message = None, error = None,
               payload = Some (populate b st)\<rparr>"
    using h by (intro lookupU_found) simp_all
  from asc have "isAscii (toUpperCase c)" by (rule isAscii_toUpperCase)
  moreover have "toUpperCase (toUpperCase c) = couponCode b"
    unfolding toUpperCase_idem by (rule up)
  ultimately show "getBookingByCouponU tbl e u (codePoints (toUpperCase c)) st =
              \<lparr>statusCode = 200, success = Some True, message = None, error = None,
               payload = Some (populate b st)\<rparr>"
    using h by (intro lookupU_found) simp_all
next
  assume "isAscii c"
  then show "getBookingByCouponU tbl e u (codePoints c) st = getBookingByCoupon e u c st"
    by (rule lookupU_ascii)
next
  assume "bookings st0 = []"
  then show "distinct (map couponCode (bookings (run st0 xs)))"
    by (intro run_distinct_coupons) simp
next
  assume "bookings st0 = []"
  then show "list_all (\<lambda>x. toUpperCase (couponCode x) = couponCode x) (bookings (run st0 xs))"
    by (intro run_coupons) simp
next
  assume "\<forall>d\<in>set (randomDigits e). d < 36"
  then have "isAscii (generateCouponCode (now e) (randomDigits e))"
    by (rule isAscii_generated)
  then show "isAscii (couponCode (newDocument e nd))"
    by (simp add: newDocument_def isAscii_toUpperCase)
qed

theorem coupon_lookup_matches_uppercased_code_witness:
  "getBookingByCouponU ex_table ex_env ex_owner (codePoints ''Git-Lqu5m2o1-Ab12'')
     (ex_store ex_product [ex_booking, ex_completed]) =
     \<lparr>statusCode = 200, success = Some True, message = None, error = None,
      payload = Some (populate ex_completed (ex_store ex_product [ex_booking, ex_completed]))\<rparr> \<and>
   getBookingByCouponU ex_table ex_env ex_owner (codePoints ''git-lqu5m2o1-ab12'')
     (ex_store ex_product [ex_booking, ex_completed]) =
     \<lparr>statusCode = 200, success = Some True, message = None, error = None,
      payload = Some (populate ex_completed (ex_store ex_product [ex_booking, ex_completed]))\<rparr> \<and>
   getBookingByCouponU ex_table ex_env ex_owner (codePoints ''GIT-LQU5M2O1-AB12'')
     (ex_store ex_product [ex_booking, ex_completed]) =
     \<lparr>statusCode = 200, success = Some True, message = None, error = None,
      payload = Some (populate ex_completed (ex_store ex_product [ex_booking, ex_completed]))\<rparr> \<and>
   getBookingByCoupon ex_env ex_owner ''git-lqu5m2o1-ab12''
     (ex_store ex_product [ex_booking, ex_completed]) =
     \<lparr>statusCode = 200, success = Some True, message = None, error = None,
      payload = Some (populate ex_completed (ex_store ex_product [ex_booking, ex_completed]))\<rparr> \<and>
   populate ex_completed (ex_store ex_product [ex_booking, ex_completed]) \<noteq>
     populate ex_booking (ex_store ex_product [ex_booking, ex_completed]) \<and>
   toUpperCaseU ex_table [223] = [83, 83] \<and>
   getBookingByCouponU ex_table ex_env ex_owner [223]
     (ex_store ex_product [ex_booking, ex_completed]) =
     replyFalse 404 ''Booking not found with this coupon code'' \<and>
   getBookingByCouponU ex_table ex_env ex_owner [83, 83]
     (ex_store ex_product [ex_booking, ex_completed]) =
     replyFalse 404 ''Booking not found with this coupon code'' \<and>
   map couponCode (bookings (run (ex_store ex_product [])
       [Create ex_env ex_owner ex_body,
        Create (ex_env\<lparr>freshId := ex_bookingId2\<rparr>) ex_owner ex_body])) =
     [''GIT-LQU5M2O0-I0Z7''] \<and>
   distinct (map couponCode (bookings (run (ex_store ex_product [])
       [Create ex_env ex_owner ex_body,
        Create (ex_env\<lparr>freshId := ex_bookingId2\<rparr>) ex_owner ex_body]))) \<and>
   list_all (\<lambda>x. toUpperCase (couponCode x) = couponCode x)
     (bookings (run (ex_store ex_product [])
       [Create ex_env ex_owner ex_body,
        Create (ex_env\<lparr>freshId := ex_bookingId2\<rparr>) ex_owner ex_body])) \<and>
   isAscii (couponCode (newDocument ex_env (documentOf ex_owner ex_body)))"
proof -
  let ?S = "ex_store ex_product [ex_booking, ex_completed]"
  let ?xs = "[Create ex_env ex_owner ex_body,
              Create (ex_env\<lparr>freshId := ex_bookingId2\<rparr>) ex_owner ex_body]"
  let ?ok = "\<lparr>statusCode = 200, success = Some True, message = None, error = None,
              payload = Some (populate ex_completed ?S)\<rparr>"
  have stable: "toUpperCaseU ex_table (ex_table p) = ex_table p" if "128 \<le> p" for p
    using that by (simp add: ex_table_def toUpperCaseU_def upperPoint_def)
  note t = coupon_lookup_matches_uppercased_code
      [where tbl = ex_table and e = ex_env and u = ex_owner and st = ?S and b = ex_completed
         and c = "''Git-Lqu5m2o1-Ab12''" and s = "[223]" and ?st0.0 = "ex_store ex_product []"
         and xs = ?xs and nd = "documentOf ex_owner ex_body", OF stable]
  have h: "ex_completed \<in> set (bookings ?S)" "distinct (map couponCode (bookings ?S))"
    "isAscii ''Git-Lqu5m2o1-Ab12''" "toUpperCase ''Git-Lqu5m2o1-Ab12'' = couponCode ex_completed"
    "readFault ex_env = None" "users ?S (userId ex_completed) \<noteq> None"
    "isAdminUser ex_owner \<or> userId ex_completed = uid ex_owner"
    by (simp_all add: ex_data isAscii_def toUpperCase_def char_eval)
  have lo: "toLowerCase ''Git-Lqu5m2o1-Ab12'' = ''git-lqu5m2o1-ab12''"
    and up: "toUpperCase ''Git-Lqu5m2o1-Ab12'' = ''GIT-LQU5M2O1-AB12''"
    by (simp_all add: toLowerCase_def toUpperCase_def char_eval)
  from t h have f: "getBookingByCouponU ex_table ex_env ex_owner
        (codePoints ''Git-Lqu5m2o1-Ab12'') ?S = ?ok"
    "getBookingByCouponU ex_table ex_env ex_owner
        (codePoints (toLowerCase ''Git-Lqu5m2o1-Ab12'')) ?S = ?ok"
    "getBookingByCouponU ex_table ex_env ex_owner
        (codePoints (toUpperCase ''Git-Lqu5m2o1-Ab12'')) ?S = ?ok"
    by blast+
  have a: "isAscii ''git-lqu5m2o1-ab12''" by (simp add: isAscii_def)
  from coupon_lookup_matches_uppercased_code
      [where tbl = ex_table and e = ex_env and u = ex_owner and st = ?S
         and c = "''git-lqu5m2o1-ab12''", OF stable] a
  have "getBookingByCouponU ex_table ex_env ex_owner (codePoints ''git-lqu5m2o1-ab12'') ?S =
          getBookingByCoupon ex_env ex_owner ''git-lqu5m2o1-ab12'' ?S"
    by blast
  with f(2) lo have g: "getBookingByCoupon ex_env ex_owner ''git-lqu5m2o1-ab12'' ?S = ?ok"
    by simp
  have d: "populate ex_completed ?S \<noteq> populate ex_booking ?S"
    by (simp add: populate_def ex_data)
  have u: "toUpperCaseU ex_table [223] = [83, 83]"
    by (simp add: toUpperCaseU_def upperPoint_def ex_table_def)
  have m: "readFault ex_env = None"
    "\<forall>x\<in>set (bookings ?S). codePoints (couponCode x) \<noteq> toUpperCaseU ex_table [223]"
    by (simp_all add: u ex_data codePoints_def)
  from t m have n1: "getBookingByCouponU ex_table ex_env ex_owner [223] ?S =
      replyFalse 404 ''Booking not found with this coupon code''"
    by blast
  from t have "getBookingByCouponU ex_table ex_env ex_owner [223] ?S =
      getBookingByCouponU ex_table ex_env ex_owner (toUpperCaseU ex_table [223]) ?S"
    by blast
  with n1 u have n2: "getBookingByCouponU ex_table ex_env ex_owner [83, 83] ?S =
      replyFalse 404 ''Booking not found with this coupon code''"
    by simp
  have e0: "bookings (ex_store ex_product []) = []" by (simp add: ex_store_def)
  from t e0 have inv: "distinct (map couponCode (bookings (run (ex_store ex_product []) ?xs)))"
    "list_all (\<lambda>x. toUpperCase (couponCode x) = couponCode x)
       (bookings (run (ex_store ex_product []) ?xs))"
    by blast+
  have r: "map couponCode (bookings (run (ex_store ex_product []) ?xs)) =
      [''GIT-LQU5M2O0-I0Z7'']"
    by (simp add: ex_data handler_eval coupon_eval)
  have dg: "\<forall>d\<in>set (randomDigits ex_env). d < 36" by (simp add: ex_data)
  from t dg have asc: "isAscii (couponCode (newDocument ex_env (documentOf ex_owner ex_body)))"
    by blast
  from f g d u n1 n2 inv r asc lo up show ?thesis by simp
qed


section \<open>Products: view counting and soft delete\<close>

text \<open>
  Claim C9, as the code has it. For an existing active product whose lookup does not
  throw, the increment of the view counter is awaited inside the handler's \<open>try\<close>
  block. When it succeeds the response is 200 with the product as read and the
  stored counter is one higher. When it throws, the read fails: the response is
  500 "Server error while fetching product" (400 "Invalid product ID" for a
  \<open>CastError\<close>), it carries no product, and the store is unchanged.
\<close>

theorem view_increment_failure_fails_read:
  assumes "products st i = Some p" "isActive p" "readFault e = None"
  shows "(writeFault e = None \<longrightarrow>
            getProduct e i st =
              (\<lparr>statusCode = 200, success = None, message = None, error = None,
                payload = Some p\<rparr>,
               st\<lparr>products := (products st)(i \<mapsto> p\<lparr>views := views p + 1\<rparr>)\<rparr>)) \<and>
         (writeFault e = Some err \<longrightarrow>
            getProduct e i st =
              (if err = CastError then reply 400 ''Invalid product ID''
               else reply 500 ''Server error while fetching product'', st) \<and>
            payload (fst (getProduct e i st)) = None)"
  using assms
  by (simp add: getProduct_def Product_findById_def productCaught_def reply_def)

theorem view_increment_failure_fails_read_witness:
  "getProduct (ex_env\<lparr>writeFault := Some (OtherError ''connection lost'')\<rparr>) ex_productId
     (ex_store ex_product []) =
     (reply 500 ''Server error while fetching product'', ex_store ex_product []) \<and>
   fst (getProduct ex_env ex_productId (ex_store ex_product [])) =
     \<lparr>statusCode = 200, success = None, message = None, error = None,
      payload = Some ex_product\<rparr> \<and>
   map_option views (products (snd (getProduct ex_env ex_productId (ex_store ex_product []))) ex_productId) =
     Some 1"
proof -
  let ?f = "ex_env\<lparr>writeFault := Some (OtherError ''connection lost'')\<rparr>"
  have h: "products (ex_store ex_product []) ex_productId = Some ex_product" "isActive ex_product"
    "readFault ?f = None" "readFault ex_env = None"
    by (simp_all add: ex_data)
  have w: "writeFault ?f = Some (OtherError ''connection lost'')" "writeFault ex_env = None"
    by (simp_all add: ex_data)
  have v: "views ex_product = 0" by (simp add: ex_data)
  from view_increment_failure_fails_read
         [OF h(1,2,3), where err = "OtherError ''connection lost''"] w(1)
  have a: "getProduct ?f ex_productId (ex_store ex_product []) =
     (reply 500 ''Server error while fetching product'', ex_store ex_product [])"
    by simp
  from view_increment_failure_fails_read[OF h(1,2,4), where err = CastError] w(2)
  have "getProduct ex_env ex_productId (ex_store ex_product []) =
              (\<lparr>statusCode = 200, success = None, message = None, error = None,
                payload = Some ex_product\<rparr>,
               (ex_store ex_product [])\<lparr>products := (products (ex_store ex_product []))
                  (ex_productId \<mapsto> ex_product\<lparr>views := views ex_product + 1\<rparr>)\<rparr>)"
    by blast
  with a v show ?thesis by simp
qed

text \<open>
  The claim as stated fails: with the product present and active, a failing
  increment turns the read into a 500 response without the product.
\<close>

theorem view_increment_swallowed_counterexample:
  "map_option isActive (products (ex_store ex_product []) ex_productId) = Some True \<and>
   fst (getProduct (ex_env\<lparr>writeFault := Some (OtherError ''connection lost'')\<rparr>) ex_productId
          (ex_store ex_product [])) =
     \<lparr>statusCode = 500, success = None,
      message = Some ''Server error while fetching product'', error = None,
      payload = None\<rparr>"
  by (simp add: ex_data handler_eval)

text \<open>
  Claim C10. The soft delete clears \<open>isActive\<close> and changes nothing else of the
  product, so its availability stays as it was. A creation request against a
  product that is inactive and \<open>Available\<close> succeeds like any other: given the
  required fields, a document that passes the schema's validation, no failing
  collaborator call, an unused \<open>_id\<close> and an unused coupon code, the response is
  201 with a booking in status \<open>Confirmed\<close> for that product, and the booking is
  appended to the collection. The handler never reads \<open>isActive\<close>.
\<close>

theorem inactive_available_product_bookable:
  assumes "products st pid = Some p" "availability p = Available" "\<not> isActive p"
    "req_productId body = Some pid" "\<not> requiredMissing body"
    "validationErrors (documentOf u body) = []" "readFault e = None" "writeFault e = None"
    "\<not> list_ex (\<lambda>x. bookingId x = freshId e) (bookings st)"
    "\<not> list_ex (\<lambda>x. couponCode x = toUpperCase (generateCouponCode (now e) (randomDigits e)))
         (bookings st)"
  shows "createBooking e u body st =
           (\<lparr>statusCode = 201, success = Some True,
             message = Some ''Booking created successfully'', error = None,
             payload = Some (newDocument e (documentOf u body))\<rparr>,
            st\<lparr>bookings := bookings st @ [newDocument e (documentOf u body)]\<rparr>) \<and>
         status (newDocument e (documentOf u body)) = Confirmed \<and>
         productId (newDocument e (documentOf u body)) = pid \<and>
         (products st0 pid = Some p0 \<and> readFault d = None \<and> imageFault d = None \<and>
          saveFault d = None \<longrightarrow>
            deleteProduct d pid st0 =
              (reply 200 ''Product deleted successfully'',
               st0\<lparr>products := (products st0)(pid \<mapsto> p0\<lparr>isActive := False\<rparr>)\<rparr>))"
proof -
  from assms(4) have pid: "strOf (req_productId body) = pid" by (simp add: strOf_def)
  have "createBooking e u body st =
           (\<lparr>statusCode = 201, success = Some True,
             message = Some ''Booking created successfully'', error = None,
             payload = Some (newDocument e (documentOf u body))\<rparr>,
            st\<lparr>bookings := bookings st @ [newDocument e (documentOf u body)]\<rparr>)"
    using assms pid by (intro createBooking_success[of body e st p u]) simp_all
  moreover have "productId (newDocument e (documentOf u body)) = pid"
    using pid by (simp add: newDocument_def documentOf_def)
  moreover have "deleteProduct d pid st0 =
              (reply 200 ''Product deleted successfully'',
               st0\<lparr>products := (products st0)(pid \<mapsto> p0\<lparr>isActive := False\<rparr>)\<rparr>)"
    if "products st0 pid = Some p0" "readFault d = None" "imageFault d = None"
      "saveFault d = None"
    using that by (simp add: deleteProduct_def Product_findById_def)
  ultimately show ?thesis by (simp add: newDocument_fields)
qed

theorem inactive_available_product_bookable_witness:
  "snd (deleteProduct ex_env ex_productId (ex_store ex_product [])) =
     ex_store (ex_product\<lparr>isActive := False\<rparr>) [] \<and>
   availability (ex_product\<lparr>isActive := False\<rparr>) = Available \<and>
   createBooking ex_env ex_owner ex_body (ex_store (ex_product\<lparr>isActive := False\<rparr>) []) =
     (\<lparr>statusCode = 201, success = Some True,
       message = Some ''Booking created successfully'', error = None,
       payload = Some (newDocument ex_env (documentOf ex_owner ex_body))\<rparr>,
      ex_store (ex_product\<lparr>isActive := False\<rparr>) [newDocument ex_env (documentOf ex_owner ex_body)]) \<and>
   status (newDocument ex_env (documentOf ex_owner ex_body)) = Confirmed"
proof -
  let ?q = "ex_product\<lparr>isActive := False\<rparr>"
  have h: "products (ex_store ?q []) ex_productId = Some ?q" "availability ?q = Available"
    "\<not> isActive ?q" "req_productId ex_body = Some ex_productId" "\<not> requiredMissing ex_body"
    "validationErrors (documentOf ex_owner ex_body) = []" "readFault ex_env = None"
    "writeFault ex_env = None"
    "\<not> list_ex (\<lambda>x. bookingId x = freshId ex_env) (bookings (ex_store ?q []))"
    "\<not> list_ex (\<lambda>x. couponCode x =
            toUpperCase (generateCouponCode (now ex_env) (randomDigits ex_env)))
         (bookings (ex_store ?q []))"
    by (simp_all add: ex_data handler_eval)
  have g: "products (ex_store ex_product []) ex_productId = Some ex_product"
    "readFault ex_env = None" "imageFault ex_env = None" "saveFault ex_env = None"
    by (simp_all add: ex_data)
  note t = inactive_available_product_bookable
      [OF h, where ?st0.0 = "ex_store ex_product []" and ?p0.0 = ex_product and d = ex_env]
  from t g have "deleteProduct ex_env ex_productId (ex_store ex_product []) =
      (reply 200 ''Product deleted successfully'',
       (ex_store ex_product [])\<lparr>products := (products (ex_store ex_product []))
          (ex_productId \<mapsto> ex_product\<lparr>isActive := False\<rparr>)\<rparr>)"
    by blast
  then have "snd (deleteProduct ex_env ex_productId (ex_store ex_product [])) = ex_store ?q []"
    by (simp add: ex_store_def)
  moreover from t have "createBooking ex_env ex_owner ex_body (ex_store ?q []) =
     (\<lparr>statusCode = 201, success = Some True,
       message = Some ''Booking created successfully'', error = None,
       payload = Some (newDocument ex_env (documentOf ex_owner ex_body))\<rparr>,
      (ex_store ?q [])\<lparr>bookings := bookings (ex_store ?q []) @
         [newDocument ex_env (documentOf ex_owner ex_body)]\<rparr>)"
    by blast
  then have "createBooking ex_env ex_owner ex_body (ex_store ?q []) =
     (\<lparr>statusCode = 201, success = Some True,
       message = Some ''Booking created successfully'', error = None,
       payload = Some (newDocument ex_env (documentOf ex_owner ex_body))\<rparr>,
      ex_store ?q [newDocument ex_env (documentOf ex_owner ex_body)])"
    by (simp add: ex_store_def)
  moreover from t have "status (newDocument ex_env (documentOf ex_owner ex_body)) = Confirmed"
    by blast
  ultimately show ?thesis using h(2) by blast
qed


end
